theory Spec2Isabelle
  imports Complex_Main "HOL-Library.Sublist" "HOL-Library.AList"
begin

section \<open>GapSignal: indicators, signal detection and the expiring cache\<close>

text \<open>
  The development embeds the numeric core of the GapSignal repository:
  \<^item> \<^verbatim>\<open>app/core/indicators.py\<close> (class \<^verbatim>\<open>IndicatorCalculator\<close>),
  \<^item> \<^verbatim>\<open>app/core/signal_detector.py\<close> (class \<^verbatim>\<open>SignalDetector\<close>),
  \<^item> \<^verbatim>\<open>app/api/data_fetcher.py\<close> (the cache of class \<^verbatim>\<open>DataFetcher\<close>),
  \<^item> \<^verbatim>\<open>app/core/data_processor.py\<close> (\<^verbatim>\<open>DataProcessor.process_symbol\<close>).

  Conventions of the embedding.
  \<^item> A Python \<^verbatim>\<open>float\<close> is a \<^typ>\<open>real\<close>: arithmetic is exact, there is no rounding,
    no overflow and no infinity. Where numpy yields \<^verbatim>\<open>nan\<close> for every input of a branch
    (a division by a zero period, the mean of an empty slice) the model returns \<open>None\<close>.
  \<^item> Periods and the lookback are \<^typ>\<open>nat\<close>: negative periods are outside the model.
  \<^item> A Python exception is a value \<open>Inl e\<close> of a sum type.
  \<^item> The clock \<^verbatim>\<open>time.time()\<close> is an explicit argument \<open>now\<close>.
\<close>

subsection \<open>Python and numpy primitives\<close>

datatype py_error = ZeroDivisionError | IndexError | ValueError

text \<open>\<^verbatim>\<open>xs[-n:]\<close> for \<open>n \<ge> 0\<close>: the last \<open>n\<close> elements, but the whole list when \<open>n = 0\<close>
  (\<^verbatim>\<open>xs[-0:]\<close> is \<^verbatim>\<open>xs[0:]\<close>).\<close>

definition py_tail :: "nat \<Rightarrow> 'a list \<Rightarrow> 'a list" where
  "py_tail n xs = (if n = 0 then xs else drop (length xs - n) xs)"

text \<open>\<^verbatim>\<open>np.diff(xs)\<close>: \<open>out[i] = xs[i+1] - xs[i]\<close>, one element fewer than \<open>xs\<close>.\<close>

definition np_diff :: "real list \<Rightarrow> real list" where
  "np_diff xs = map (\<lambda>(a, b). b - a) (zip xs (tl xs))"

text \<open>\<^verbatim>\<open>np.mean\<close> and \<^verbatim>\<open>np.std\<close> (population standard deviation, \<open>ddof = 0\<close>) of a
  non-empty list. On an empty list numpy returns \<^verbatim>\<open>nan\<close>; the callers below test for
  emptiness before they use these two.\<close>

definition np_mean :: "real list \<Rightarrow> real" where
  "np_mean xs = sum_list xs / real (length xs)"

definition np_std :: "real list \<Rightarrow> real" where
  "np_std xs = sqrt (np_mean (map (\<lambda>x. (x - np_mean xs)\<^sup>2) xs))"

subsection \<open>\<^verbatim>\<open>IndicatorCalculator.calculate_rsi\<close>\<close>

text \<open>The loop \<^verbatim>\<open>for i in range(period, len(deltas))\<close> over the deltas after the seed;
  its state is \<open>(up, down, rsi)\<close>.\<close>

fun rsi_loop :: "nat \<Rightarrow> real list \<Rightarrow> real \<Rightarrow> real \<Rightarrow> real \<Rightarrow> real" where
  "rsi_loop period [] up down rsi = rsi"
| "rsi_loop period (delta # ds) up down rsi =
     (let up_val = (if delta > 0 then delta else 0);
          down_val = (if delta > 0 then 0 else - delta);
          up' = (up * (real period - 1) + up_val) / real period;
          down' = (down * (real period - 1) + down_val) / real period;
          rsi' = (if down' = 0 then 100 else 100 - 100 / (1 + up' / down'))
      in rsi_loop period ds up' down' rsi')"

text \<open>With \<open>period = 0\<close> and at least one price, \<open>up\<close> and \<open>down\<close> are \<^verbatim>\<open>0.0 / 0\<close> in
  numpy, that is \<^verbatim>\<open>nan\<close>, and so is the result: \<open>None\<close>.\<close>

definition calculate_rsi :: "real list \<Rightarrow> nat \<Rightarrow> real option" where
  "calculate_rsi prices period =
     (if length prices < period + 1 then Some 50
      else if period = 0 then None
      else
        let deltas = np_diff prices;
            seed = take period deltas;
            up = sum_list (filter (\<lambda>d. d \<ge> 0) seed) / real period;
            down = - sum_list (filter (\<lambda>d. d < 0) seed) / real period
        in if down = 0 then Some 100
           else Some (rsi_loop period (drop period deltas) up down
                        (100 - 100 / (1 + up / down))))"

text \<open>The RSI as the specification words it: seed the two averages from the first
  \<open>period\<close> deltas, roll Wilder's smoothing over all remaining deltas, and read the RSI
  off the final pair of averages (\<open>100\<close> when the average loss is zero).\<close>

definition wilder_step :: "nat \<Rightarrow> real \<Rightarrow> real \<times> real \<Rightarrow> real \<times> real" where
  "wilder_step period delta = (\<lambda>(gain, loss).
     ((gain * (real period - 1) + max delta 0) / real period,
      (loss * (real period - 1) + max (- delta) 0) / real period))"

definition rsi_of_averages :: "real \<times> real \<Rightarrow> real" where
  "rsi_of_averages = (\<lambda>(gain, loss). if loss = 0 then 100 else 100 - 100 / (1 + gain / loss))"

definition rsi_spec :: "real list \<Rightarrow> nat \<Rightarrow> real" where
  "rsi_spec prices period =
     (if length prices < period + 1 then 50
      else
        let deltas = np_diff prices;
            seed = take period deltas;
            gain0 = sum_list (filter (\<lambda>d. d \<ge> 0) seed) / real period;
            loss0 = - sum_list (filter (\<lambda>d. d < 0) seed) / real period
        in rsi_of_averages (fold (wilder_step period) (drop period deltas) (gain0, loss0)))"

subsection \<open>\<^verbatim>\<open>IndicatorCalculator.calculate_bollinger_bands\<close>\<close>

record bands =
  upper :: real
  middle :: real
  lower :: real

text \<open>The window is \<^verbatim>\<open>prices[-period:]\<close>. It is empty only for \<open>period = 0\<close> and no prices
  at all; numpy then returns \<^verbatim>\<open>nan\<close> for the mean and the deviation, and every band is
  \<^verbatim>\<open>nan\<close>: \<open>None\<close>.\<close>

definition calculate_bollinger_bands :: "real list \<Rightarrow> nat \<Rightarrow> real \<Rightarrow> bands option" where
  "calculate_bollinger_bands prices period std_dev =
     (if length prices < period then Some \<lparr>upper = 0, middle = 0, lower = 0\<rparr>
      else
        let window = py_tail period prices
        in if window = [] then None
           else
             let sma = np_mean window;
                 std = np_std window;
                 upper = sma + (std_dev * std);
                 lower = sma - (std_dev * std)
             in Some \<lparr>upper = upper, middle = sma, lower = lower\<rparr>)"

subsection \<open>\<^verbatim>\<open>SignalDetector\<close>: signals\<close>

text \<open>A kline row \<^verbatim>\<open>[open_time, open, high, low, close, volume, ...]\<close> after \<^verbatim>\<open>float()\<close>
  has been applied to the fields the detector reads (\<^verbatim>\<open>k[2]\<close>, \<^verbatim>\<open>k[3]\<close>, \<^verbatim>\<open>k[4]\<close>):
  rows whose fields do not parse as numbers are outside the model.\<close>

record candle =
  k_open_time :: int
  k_open :: real
  k_high :: real
  k_low :: real
  k_close :: real
  k_volume :: real

datatype signal = Buy | Sell | NoSignal

datatype sequence_label = Increasing | Decreasing | Mixed

record signal_details =
  low_sequence :: sequence_label
  close_sequence :: sequence_label
  high_sequence :: sequence_label
  lookback_periods :: nat
  change_threshold :: real

text \<open>\<open>details = None\<close> is the empty dictionary \<^verbatim>\<open>{}\<close> of the early return.\<close>

record signal_result =
  signal :: signal
  confidence :: real
  cumulative_change :: real
  details :: "signal_details option"

text \<open>\<^verbatim>\<open>all(values[i] < values[i+1] for i in range(len(values)-1))\<close>; Python's
  \<^verbatim>\<open>range(-1)\<close> is empty, as is \<open>[0..<0 - 1]\<close> over \<^typ>\<open>nat\<close>.\<close>

definition is_strictly_increasing :: "real list \<Rightarrow> bool" where
  "is_strictly_increasing values =
     list_all (\<lambda>i. values ! i < values ! (i + 1)) [0..<length values - 1]"

definition is_strictly_decreasing :: "real list \<Rightarrow> bool" where
  "is_strictly_decreasing values =
     list_all (\<lambda>i. values ! i > values ! (i + 1)) [0..<length values - 1]"

text \<open>\<^verbatim>\<open>excess / threshold\<close> divides Python floats: a zero threshold raises.\<close>

definition calculate_confidence :: "real \<Rightarrow> real \<Rightarrow> py_error + real" where
  "calculate_confidence change threshold =
     (if change \<le> threshold then Inr 0.5
      else
        let excess = min (change - threshold) threshold
        in if threshold = 0 then Inl ZeroDivisionError
           else Inr (0.5 + (excess / threshold) * 0.5))"

text \<open>The confidence curve as the specification words it: \<open>0.5\<close> up to the threshold,
  rising linearly to \<open>1.0\<close> at twice the threshold, and \<open>1.0\<close> beyond.\<close>

definition confidence_curve :: "real \<Rightarrow> real \<Rightarrow> real" where
  "confidence_curve threshold m =
     (if m \<le> threshold then 1 / 2
      else if m \<le> 2 * threshold then 1 / 2 + (m - threshold) / (2 * threshold)
      else 1)"

definition label_of :: "bool \<Rightarrow> bool \<Rightarrow> sequence_label" where
  "label_of increasing decreasing =
     (if increasing then Increasing else if decreasing then Decreasing else Mixed)"

text \<open>The detector's two configuration values are the first two arguments.
  \<^verbatim>\<open>closes[0]\<close> raises on an empty window (possible only for a zero lookback and no
  klines), the division by \<^verbatim>\<open>start_close\<close> raises when it is zero.\<close>

definition detect_signal :: "nat \<Rightarrow> real \<Rightarrow> candle list \<Rightarrow> py_error + signal_result" where
  "detect_signal lookback threshold klines =
     (if length klines < lookback
      then Inr \<lparr>signal = NoSignal, confidence = 0, cumulative_change = 0, details = None\<rparr>
      else
        let recent_klines = py_tail lookback klines;
            lows = map k_low recent_klines;
            closes = map k_close recent_klines;
            highs = map k_high recent_klines
        in if closes = [] then Inl IndexError
           else
             let start_close = hd closes;
                 end_close = last closes
             in if start_close = 0 then Inl ZeroDivisionError
                else
                  let cumulative_change = ((end_close - start_close) / start_close) * 100;
                      low_increasing = is_strictly_increasing lows;
                      low_decreasing = is_strictly_decreasing lows;
                      close_increasing = is_strictly_increasing closes;
                      close_decreasing = is_strictly_decreasing closes;
                      high_increasing = is_strictly_increasing highs;
                      high_decreasing = is_strictly_decreasing highs;
                      details = Some \<lparr>low_sequence = label_of low_increasing low_decreasing,
                                      close_sequence = label_of close_increasing close_decreasing,
                                      high_sequence = label_of high_increasing high_decreasing,
                                      lookback_periods = lookback,
                                      change_threshold = threshold\<rparr>
                  in if cumulative_change > threshold
                        \<and> low_increasing \<and> close_increasing \<and> high_increasing
                     then (case calculate_confidence cumulative_change threshold of
                             Inl e \<Rightarrow> Inl e
                           | Inr c \<Rightarrow> Inr \<lparr>signal = Buy, confidence = c,
                                          cumulative_change = cumulative_change,
                                          details = details\<rparr>)
                     else if cumulative_change < - threshold
                        \<and> low_decreasing \<and> close_decreasing \<and> high_decreasing
                     then (case calculate_confidence \<bar>cumulative_change\<bar> threshold of
                             Inl e \<Rightarrow> Inl e
                           | Inr c \<Rightarrow> Inr \<lparr>signal = Sell, confidence = c,
                                          cumulative_change = cumulative_change,
                                          details = details\<rparr>)
                     else Inr \<lparr>signal = NoSignal, confidence = 0,
                               cumulative_change = cumulative_change,
                               details = details\<rparr>)"

text \<open>The part of \<^const>\<open>detect_signal\<close> after its three guards, as a function of the
  window \<^verbatim>\<open>recent_klines\<close> (see \<open>detect_signal_unfold\<close> below).\<close>

definition window_result :: "nat \<Rightarrow> real \<Rightarrow> candle list \<Rightarrow> py_error + signal_result" where
  "window_result lookback threshold w =
     (let cum = ((k_close (last w) - k_close (hd w)) / k_close (hd w)) * 100;
          li = is_strictly_increasing (map k_low w); ld = is_strictly_decreasing (map k_low w);
          ci = is_strictly_increasing (map k_close w); cd = is_strictly_decreasing (map k_close w);
          hi = is_strictly_increasing (map k_high w); hd' = is_strictly_decreasing (map k_high w);
          det = Some \<lparr>low_sequence = label_of li ld, close_sequence = label_of ci cd,
                      high_sequence = label_of hi hd', lookback_periods = lookback,
                      change_threshold = threshold\<rparr>
      in if cum > threshold \<and> li \<and> ci \<and> hi
         then (case calculate_confidence cum threshold of Inl e \<Rightarrow> Inl e
               | Inr c \<Rightarrow> Inr \<lparr>signal = Buy, confidence = c, cumulative_change = cum, details = det\<rparr>)
         else if cum < - threshold \<and> ld \<and> cd \<and> hd'
         then (case calculate_confidence \<bar>cum\<bar> threshold of Inl e \<Rightarrow> Inl e
               | Inr c \<Rightarrow> Inr \<lparr>signal = Sell, confidence = c, cumulative_change = cum, details = det\<rparr>)
         else Inr \<lparr>signal = NoSignal, confidence = 0, cumulative_change = cum, details = det\<rparr>)"

text \<open>A candle with the given low, close and high, for the examples.\<close>

definition candle_of :: "real \<Rightarrow> real \<Rightarrow> real \<Rightarrow> candle" where
  "candle_of lo cl hi =
     \<lparr>k_open_time = 0, k_open = cl, k_high = hi, k_low = lo, k_close = cl, k_volume = 0\<rparr>"

subsection \<open>\<^verbatim>\<open>SignalDetector.analyze_trend\<close>\<close>

datatype trend = StrongBullish | Bullish | StrongBearish | Bearish | Neutral

datatype position = Above | Below

record ema_position =
  ema_value :: real
  diff_percent :: real
  position :: position

text \<open>\<open>price = None\<close>: the early return for no klines has no \<^verbatim>\<open>'price'\<close> key.\<close>

record trend_result =
  trend :: trend
  ema_positions :: "(nat \<times> ema_position) list"
  price :: "real option"

text \<open>A dictionary keyed by the EMA period is an association list with distinct keys, in
  insertion order; \<^verbatim>\<open>d[k] = v\<close> is \<^const>\<open>AList.update\<close>. The body of the loop
  \<^verbatim>\<open>for period, ema_value in sorted(ema_values.items())\<close>:\<close>

definition position_step ::
  "real \<Rightarrow> nat \<times> real \<Rightarrow> (nat \<times> ema_position) list \<Rightarrow> (nat \<times> ema_position) list" where
  "position_step latest_close = (\<lambda>(period, ema_value) ema_positions.
     if ema_value = 0 then ema_positions
     else
       let diff_percent = ((latest_close - ema_value) / ema_value) * 100
       in AList.update period
            \<lparr>ema_value = ema_value, diff_percent = diff_percent,
             position = (if diff_percent > 0 then Above else Below)\<rparr>
            ema_positions)"

text \<open>\<^verbatim>\<open>ema_positions[p]\<close> for a key \<open>p\<close> taken from the dictionary's own keys.\<close>

definition lookup_position :: "(nat \<times> ema_position) list \<Rightarrow> nat \<Rightarrow> ema_position" where
  "lookup_position positions p = the (map_of positions p)"

definition analyze_trend :: "candle list \<Rightarrow> (nat \<times> real) list \<Rightarrow> trend_result" where
  "analyze_trend klines ema_values =
     (if klines = [] then \<lparr>trend = Neutral, ema_positions = [], price = None\<rparr>
      else
        let latest_close = k_close (last klines);
            ema_positions = fold (position_step latest_close) (sort_key fst ema_values) [];
            trend =
              (if length ema_positions \<ge> 2 then
                 let periods = sort (map fst ema_positions);
                     all_above = list_all
                       (\<lambda>p. position (lookup_position ema_positions p) = Above) periods;
                     all_below = list_all
                       (\<lambda>p. position (lookup_position ema_positions p) = Below) periods
                 in if all_above then StrongBullish
                    else if all_below then StrongBearish
                    else
                      let ema_values_list =
                            map (\<lambda>p. (p, ema_value (lookup_position ema_positions p))) periods;
                          bullish_alignment = list_all
                            (\<lambda>i. snd (ema_values_list ! i) > snd (ema_values_list ! (i + 1)))
                            [0..<length ema_values_list - 1];
                          bearish_alignment = list_all
                            (\<lambda>i. snd (ema_values_list ! i) < snd (ema_values_list ! (i + 1)))
                            [0..<length ema_values_list - 1]
                      in if bullish_alignment then Bullish
                         else if bearish_alignment then Bearish
                         else Neutral
               else Neutral)
        in \<lparr>trend = trend, ema_positions = ema_positions, price = Some latest_close\<rparr>)"

text \<open>The entry that the loop stores for a nonzero EMA value, and the classification that
  \<^const>\<open>analyze_trend\<close> applies to the finished dictionary (see \<open>analyze_trend_unfold\<close>
  below).\<close>

definition position_info :: "real \<Rightarrow> real \<Rightarrow> ema_position" where
  "position_info latest_close v =
     \<lparr>ema_value = v, diff_percent = ((latest_close - v) / v) * 100,
      position = (if ((latest_close - v) / v) * 100 > 0 then Above else Below)\<rparr>"

definition classify_trend :: "(nat \<times> ema_position) list \<Rightarrow> trend" where
  "classify_trend positions =
     (if length positions \<ge> 2 then
        let periods = sort (map fst positions);
            all_above = list_all
              (\<lambda>p. position (lookup_position positions p) = Above) periods;
            all_below = list_all
              (\<lambda>p. position (lookup_position positions p) = Below) periods
        in if all_above then StrongBullish
           else if all_below then StrongBearish
           else
             let ema_values_list =
                   map (\<lambda>p. (p, ema_value (lookup_position positions p))) periods;
                 bullish_alignment = list_all
                   (\<lambda>i. snd (ema_values_list ! i) > snd (ema_values_list ! (i + 1)))
                   [0..<length ema_values_list - 1];
                 bearish_alignment = list_all
                   (\<lambda>i. snd (ema_values_list ! i) < snd (ema_values_list ! (i + 1)))
                   [0..<length ema_values_list - 1]
             in if bullish_alignment then Bullish
                else if bearish_alignment then Bearish
                else Neutral
      else Neutral)"

subsection \<open>The cache of \<^verbatim>\<open>DataFetcher\<close>\<close>

record 'a cache_entry =
  data :: 'a
  timestamp :: real

text \<open>\<^verbatim>\<open>self.cache\<close> is a dictionary from key strings to entries: an association list
  with distinct keys. \<^verbatim>\<open>self.cache_duration\<close> is set to 300 seconds by the constructor.\<close>

record 'a data_fetcher =
  cache_duration :: real
  cache :: "(string \<times> 'a cache_entry) list"

definition new_data_fetcher :: "'a data_fetcher" where
  "new_data_fetcher = \<lparr>cache_duration = 300, cache = []\<rparr>"

definition is_cache_valid :: "'a data_fetcher \<Rightarrow> real \<Rightarrow> string \<Rightarrow> bool" where
  "is_cache_valid self now cache_key =
     (case map_of (cache self) cache_key of
        None \<Rightarrow> False
      | Some cache_entry \<Rightarrow> now - timestamp cache_entry < cache_duration self)"

text \<open>A miss is Python's \<^verbatim>\<open>None\<close>.\<close>

definition get_from_cache :: "'a data_fetcher \<Rightarrow> real \<Rightarrow> string \<Rightarrow> 'a option" where
  "get_from_cache self now cache_key =
     (if is_cache_valid self now cache_key
      then map_option data (map_of (cache self) cache_key)
      else None)"

definition set_to_cache :: "'a data_fetcher \<Rightarrow> real \<Rightarrow> string \<Rightarrow> 'a \<Rightarrow> 'a data_fetcher" where
  "set_to_cache self now cache_key d =
     self\<lparr>cache := AList.update cache_key \<lparr>data = d, timestamp = now\<rparr> (cache self)\<rparr>"

text \<open>\<^verbatim>\<open>clear_cache\<close> returns the new state and the number of entries cleared;
  \<^verbatim>\<open>k.startswith(key_prefix)\<close> is \<^const>\<open>prefix\<close> on strings, \<^verbatim>\<open>del self.cache[key]\<close>
  is \<^const>\<open>AList.delete\<close>.\<close>

definition clear_cache :: "'a data_fetcher \<Rightarrow> string option \<Rightarrow> 'a data_fetcher \<times> nat" where
  "clear_cache self key_prefix =
     (case key_prefix of
        None \<Rightarrow> (let count = length (cache self) in (self\<lparr>cache := []\<rparr>, count))
      | Some p \<Rightarrow>
          let keys_to_remove = filter (\<lambda>k. prefix p k) (map fst (cache self))
          in (self\<lparr>cache := fold AList.delete keys_to_remove (cache self)\<rparr>,
              length keys_to_remove))"

record cache_stats =
  total_entries :: nat
  valid_entries :: nat
  expired_entries :: nat
  cache_duration_seconds :: real
  memory_usage_kb :: real

text \<open>The loop of \<^verbatim>\<open>get_cache_stats\<close> over \<^verbatim>\<open>self.cache.values()\<close>; its state is
  \<open>(valid_count, expired_count)\<close>.\<close>

definition count_step :: "real \<Rightarrow> real \<Rightarrow> 'a cache_entry \<Rightarrow> nat \<times> nat \<Rightarrow> nat \<times> nat" where
  "count_step now duration entry = (\<lambda>(valid_count, expired_count).
     if now - timestamp entry < duration then (valid_count + 1, expired_count)
     else (valid_count, expired_count + 1))"

text \<open>\<open>str_len\<close> stands for \<^verbatim>\<open>len(str(v))\<close>, the length of Python's rendering of an
  entry.\<close>

definition get_cache_stats ::
  "('a cache_entry \<Rightarrow> nat) \<Rightarrow> 'a data_fetcher \<Rightarrow> real \<Rightarrow> cache_stats" where
  "get_cache_stats str_len self now =
     (let total_entries = length (cache self);
          counts = fold (count_step now (cache_duration self)) (map snd (cache self)) (0, 0)
      in \<lparr>total_entries = total_entries,
          valid_entries = fst counts,
          expired_entries = snd counts,
          cache_duration_seconds = cache_duration self,
          memory_usage_kb = real (sum_list (map str_len (map snd (cache self)))) / 1024\<rparr>)"

subsection \<open>The EMA family, ATR and MACD\<close>

text \<open>\<^verbatim>\<open>pd.Series(prices).ewm(span=period, adjust=False).mean()\<close> is the recursion
  \<open>y\<^sub>0 = x\<^sub>0\<close>, \<open>y\<^sub>t = (1 - \<alpha>) y\<^sub>t\<^sub>-\<^sub>1 + \<alpha> x\<^sub>t\<close> with \<open>\<alpha> = 2 / (span + 1)\<close>; pandas
  raises \<^verbatim>\<open>ValueError\<close> unless \<open>span \<ge> 1\<close>.\<close>

fun ewm_from :: "real \<Rightarrow> real \<Rightarrow> real list \<Rightarrow> real list" where
  "ewm_from alpha y [] = []"
| "ewm_from alpha y (x # xs) =
     (let y' = (1 - alpha) * y + alpha * x in y' # ewm_from alpha y' xs)"

definition ewm_mean :: "nat \<Rightarrow> real list \<Rightarrow> py_error + real list" where
  "ewm_mean span_arg xs =
     (if span_arg < 1 then Inl ValueError
      else Inr (case xs of
                  [] \<Rightarrow> []
                | x # rest \<Rightarrow> x # ewm_from (2 / (real span_arg + 1)) x rest))"

text \<open>An entry \<open>None\<close> of an EMA series is \<^verbatim>\<open>np.nan\<close>.\<close>

definition calculate_ema :: "real list \<Rightarrow> nat \<Rightarrow> py_error + real option list" where
  "calculate_ema prices period =
     (if length prices < period then Inr (replicate (length prices) None)
      else (case ewm_mean period prices of
              Inl e \<Rightarrow> Inl e
            | Inr ema \<Rightarrow> Inr (map Some ema)))"

fun calculate_multiple_emas_loop ::
  "real list \<Rightarrow> nat list \<Rightarrow> (nat \<times> real option list) list
   \<Rightarrow> py_error + (nat \<times> real option list) list" where
  "calculate_multiple_emas_loop prices [] results = Inr results"
| "calculate_multiple_emas_loop prices (period # rest) results =
     (case calculate_ema prices period of
        Inl e \<Rightarrow> Inl e
      | Inr ema \<Rightarrow> calculate_multiple_emas_loop prices rest (AList.update period ema results))"

definition calculate_multiple_emas ::
  "nat list \<Rightarrow> real list \<Rightarrow> py_error + (nat \<times> real option list) list" where
  "calculate_multiple_emas periods prices = calculate_multiple_emas_loop prices periods []"

definition latest_valid :: "real option list \<Rightarrow> real" where
  "latest_valid ema_values =
     (let valid_values = map the (filter (\<lambda>v. v \<noteq> None) ema_values)
      in if valid_values \<noteq> [] then last valid_values else 0)"

definition calculate_latest_emas :: "nat list \<Rightarrow> real list \<Rightarrow> py_error + (nat \<times> real) list" where
  "calculate_latest_emas periods prices =
     (case calculate_multiple_emas periods prices of
        Inl e \<Rightarrow> Inl e
      | Inr all_emas \<Rightarrow>
          Inr (fold (\<lambda>(period, ema_values) latest_emas.
                       AList.update period (latest_valid ema_values) latest_emas)
                 all_emas []))"

definition calculate_ema_differences :: "real \<Rightarrow> (nat \<times> real) list \<Rightarrow> (nat \<times> real) list" where
  "calculate_ema_differences current_price ema_values =
     fold (\<lambda>(period, ema_value) differences.
             AList.update period
               (if ema_value \<noteq> 0 then ((current_price - ema_value) / ema_value) * 100 else 0)
               differences)
       ema_values []"

text \<open>The true ranges for \<^verbatim>\<open>i in range(1, len(high))\<close>; \<^verbatim>\<open>low[i]\<close> or \<^verbatim>\<open>close[i-1]\<close>
  out of range raises \<^verbatim>\<open>IndexError\<close>.\<close>

definition true_range_list :: "real list \<Rightarrow> real list \<Rightarrow> real list \<Rightarrow> py_error + real list" where
  "true_range_list high low close =
     (if 2 \<le> length high \<and> (length low < length high \<or> length close < length high - 1)
      then Inl IndexError
      else Inr (map (\<lambda>i. let hl = high ! i - low ! i;
                              hc = \<bar>high ! i - close ! (i - 1)\<bar>;
                              lc = \<bar>low ! i - close ! (i - 1)\<bar>
                          in max hl (max hc lc))
                  [1..<length high]))"

fun atr_loop :: "nat \<Rightarrow> real list \<Rightarrow> real \<Rightarrow> real" where
  "atr_loop period [] atr = atr"
| "atr_loop period (tr # rest) atr =
     atr_loop period rest ((atr * (real period - 1) + tr) / real period)"

text \<open>\<^verbatim>\<open>np.mean\<close> of an empty seed is \<^verbatim>\<open>nan\<close>, and the smoothing keeps it: \<open>None\<close>.\<close>

definition calculate_atr ::
  "real list \<Rightarrow> real list \<Rightarrow> real list \<Rightarrow> nat \<Rightarrow> py_error + real option" where
  "calculate_atr high low close period =
     (if length high < period \<or> length low < period \<or> length close < period then Inr (Some 0)
      else (case true_range_list high low close of
              Inl e \<Rightarrow> Inl e
            | Inr tr_list \<Rightarrow>
                if take period tr_list = [] then Inr None
                else Inr (Some (atr_loop period (drop period tr_list)
                                  (np_mean (take period tr_list))))))"

text \<open>The signal line is \<open>None\<close> when it is \<^verbatim>\<open>nan\<close>.\<close>

record macd_result =
  macd :: real
  macd_signal :: "real option"
  histogram :: real

definition calculate_macd ::
  "real list \<Rightarrow> nat \<Rightarrow> nat \<Rightarrow> nat \<Rightarrow> py_error + macd_result" where
  "calculate_macd prices fast_period slow_period signal_period =
     (if length prices < slow_period + signal_period
      then Inr \<lparr>macd = 0, macd_signal = Some 0, histogram = 0\<rparr>
      else (case calculate_ema prices fast_period of
              Inl e \<Rightarrow> Inl e
            | Inr fast_ema \<Rightarrow>
        (case calculate_ema prices slow_period of
              Inl e \<Rightarrow> Inl e
            | Inr slow_ema \<Rightarrow>
          if fast_ema = [] \<or> slow_ema = [] then Inl IndexError
          else (case (last fast_ema, last slow_ema) of
                  (Some fast_val, Some slow_val) \<Rightarrow>
                    let macd_val = fast_val - slow_val;
                        macd_prices = map (\<lambda>(f, s). the f - the s)
                          (filter (\<lambda>(f, s). f \<noteq> None \<and> s \<noteq> None) (zip fast_ema slow_ema))
                    in (case (if macd_prices \<noteq> []
                              then map_sum id last (calculate_ema macd_prices signal_period)
                              else Inr (Some 0)) of
                          Inl e \<Rightarrow> Inl e
                        | Inr sig \<Rightarrow>
                            Inr \<lparr>macd = macd_val, macd_signal = sig,
                                 histogram = (case sig of Some s \<Rightarrow> macd_val - s | None \<Rightarrow> 0)\<rparr>)
                | _ \<Rightarrow> Inr \<lparr>macd = 0, macd_signal = Some 0, histogram = 0\<rparr>))))"

subsection \<open>\<^verbatim>\<open>DataProcessor.process_symbol\<close>\<close>

text \<open>The configuration values the processor hands to its detector and calculator.\<close>

record config =
  ema_periods :: "nat list"
  signal_lookback_periods :: nat
  signal_cumulative_change_threshold_percent :: real

definition default_config :: config where
  "default_config = \<lparr>ema_periods = [20, 60, 120, 250], signal_lookback_periods = 3,
                      signal_cumulative_change_threshold_percent = 1\<rparr>"

record processed =
  p_symbol :: string
  p_current_price :: real
  p_signal :: signal
  p_confidence :: real
  p_cumulative_change :: real
  p_signal_details :: "signal_details option"
  p_ema_values :: "(nat \<times> real) list"
  p_ema_differences :: "(nat \<times> real) list"
  p_trend :: trend
  p_trend_details :: "(nat \<times> ema_position) list"
  p_rsi :: "real option"
  p_atr :: "real option"
  p_bollinger_bands :: "bands option"
  p_macd :: macd_result
  p_volume_24h :: real
  p_price_change_24h :: real
  p_timestamp :: int

text \<open>The four-key dictionary \<^verbatim>\<open>{'symbol', 'error', 'signal', 'confidence'}\<close> of the two
  error returns.\<close>

record error_result =
  e_symbol :: string
  e_error :: string
  e_signal :: signal
  e_confidence :: real

datatype symbol_result = Failure error_result | Success processed

text \<open>\<^verbatim>\<open>int(x)\<close> truncates towards zero.\<close>

definition py_int :: "real \<Rightarrow> int" where
  "py_int x = (if 0 \<le> x then \<lfloor>x\<rfloor> else \<lceil>x\<rceil>)"

text \<open>The body of the \<^verbatim>\<open>try\<close> block; an exception anywhere in it is \<open>Inl\<close>.\<close>

definition process_symbol_body ::
  "config \<Rightarrow> real \<Rightarrow> string \<Rightarrow> candle list \<Rightarrow> py_error + processed" where
  "process_symbol_body cfg now symbol klines =
     (let close_prices = map k_close klines
      in case calculate_latest_emas (ema_periods cfg) close_prices of
           Inl e \<Rightarrow> Inl e
         | Inr latest_emas \<Rightarrow>
      let current_price = last close_prices;
          ema_differences = calculate_ema_differences current_price latest_emas
      in case detect_signal (signal_lookback_periods cfg)
                (signal_cumulative_change_threshold_percent cfg) klines of
           Inl e \<Rightarrow> Inl e
         | Inr signal_info \<Rightarrow>
      let trend_info = analyze_trend klines latest_emas;
          high_prices = map k_high klines;
          low_prices = map k_low klines;
          rsi = calculate_rsi close_prices 14
      in case calculate_atr high_prices low_prices close_prices 14 of
           Inl e \<Rightarrow> Inl e
         | Inr atr \<Rightarrow>
      let bb = calculate_bollinger_bands close_prices 20 2
      in case calculate_macd close_prices 12 26 9 of
           Inl e \<Rightarrow> Inl e
         | Inr macd_info \<Rightarrow>
      Inr \<lparr>p_symbol = symbol,
           p_current_price = current_price,
           p_signal = signal signal_info,
           p_confidence = confidence signal_info,
           p_cumulative_change = cumulative_change signal_info,
           p_signal_details = details signal_info,
           p_ema_values = latest_emas,
           p_ema_differences = ema_differences,
           p_trend = trend trend_info,
           p_trend_details = ema_positions trend_info,
           p_rsi = rsi,
           p_atr = atr,
           p_bollinger_bands = bb,
           p_macd = macd_info,
           p_volume_24h = 0,
           p_price_change_24h = 0,
           p_timestamp = py_int now\<rparr>)"

text \<open>\<open>str_of\<close> stands for Python's \<^verbatim>\<open>str(e)\<close> of a caught exception.\<close>

definition process_symbol ::
  "config \<Rightarrow> (py_error \<Rightarrow> string) \<Rightarrow> real \<Rightarrow> string \<Rightarrow> candle list \<Rightarrow> symbol_result" where
  "process_symbol cfg str_of now symbol klines =
     (if klines = [] \<or> length klines < 10
      then Failure \<lparr>e_symbol = symbol, e_error = ''Insufficient data'',
                    e_signal = NoSignal, e_confidence = 0\<rparr>
      else (case process_symbol_body cfg now symbol klines of
              Inl e \<Rightarrow> Failure \<lparr>e_symbol = symbol, e_error = str_of e,
                                e_signal = NoSignal, e_confidence = 0\<rparr>
            | Inr result \<Rightarrow> Success result))"
section \<open>Properties of the indicators\<close>

subsection \<open>RSI\<close>

lemma np_diff_simps [simp]:
  "np_diff [] = []" "np_diff [x] = []" "np_diff (x # y # zs) = (y - x) # np_diff (y # zs)"
  by (simp_all add: np_diff_def)

lemma np_diff_nonneg: "sorted xs \<Longrightarrow> \<forall>d \<in> set (np_diff xs). 0 \<le> d"
  by (induction xs rule: induct_list012) auto

lemma np_diff_neg: "sorted_wrt (>) xs \<Longrightarrow> \<forall>d \<in> set (np_diff xs). d < 0"
  by (induction xs rule: induct_list012) auto

lemma length_np_diff: "length (np_diff xs) = length xs - 1"
  by (simp add: np_diff_def)

lemma rsi_formula_bounds:
  assumes "0 \<le> up" "0 < down"
  shows "0 \<le> 100 - 100 / (1 + up / down)" "100 - 100 / (1 + up / down) \<le> (100::real)"
proof -
  have "1 \<le> 1 + up / down" using assms by simp
  then have "100 / (1 + up / down) \<le> 100" 
    by (simp add: divide_le_eq)
  then show "0 \<le> 100 - 100 / (1 + up / down)" by simp
  have "0 \<le> 100 / (1 + up / down)" using \<open>1 \<le> 1 + up / down\<close> by simp
  then show "100 - 100 / (1 + up / down) \<le> (100::real)" by simp
qed

lemma rsi_loop_bounds:
  "0 < period \<Longrightarrow> 0 \<le> up \<Longrightarrow> 0 \<le> down \<Longrightarrow> 0 \<le> rsi \<Longrightarrow> rsi \<le> 100
   \<Longrightarrow> 0 \<le> rsi_loop period ds up down rsi \<and> rsi_loop period ds up down rsi \<le> 100"
proof (induction ds arbitrary: up down rsi)
  case Nil
  then show ?case by simp
next
  case (Cons d ds)
  let ?uv = "if d > 0 then d else 0"
  let ?dv = "if d > 0 then 0 else - d"
  let ?up = "(up * (real period - 1) + ?uv) / real period"
  let ?down = "(down * (real period - 1) + ?dv) / real period"
  let ?rsi = "if ?down = 0 then 100 else 100 - 100 / (1 + ?up / ?down)"
  have p: "0 \<le> real period - 1" "0 < real period" using Cons.prems(1) by simp_all
  have u: "0 \<le> ?up" using Cons.prems p by simp
  have d: "0 \<le> ?down" using Cons.prems p by simp
  have r: "0 \<le> ?rsi \<and> ?rsi \<le> 100"
  proof (cases "?down = 0")
    case True
    then show ?thesis by simp
  next
    case False
    then have "0 < ?down" using d by linarith
    from rsi_formula_bounds[OF u this] show ?thesis using False by simp
  qed
  have "rsi_loop period (d # ds) up down rsi = rsi_loop period ds ?up ?down ?rsi"
    by (simp add: Let_def)
  then show ?case using Cons.IH[OF Cons.prems(1) u d] r by simp
qed


lemma rsi_loop_all_losses:
  "0 < period \<Longrightarrow> 0 < down \<Longrightarrow> \<forall>d \<in> set ds. d < 0
   \<Longrightarrow> rsi_loop period ds 0 down r0 = (if ds = [] then r0 else 0)"
proof (induction ds arbitrary: down r0)
  case Nil
  then show ?case by simp
next
  case (Cons d ds)
  have dneg: "d < 0" using Cons.prems(3) by simp
  let ?down = "(down * (real period - 1) + (- d)) / real period"
  have p: "0 \<le> real period - 1" "0 < real period" using Cons.prems(1) by simp_all
  have "0 \<le> down * (real period - 1)"
    using Cons.prems(2) p(1) by simp
  then have "0 < down * (real period - 1) + (- d)"
    using dneg by linarith
  then have pos: "0 < ?down" using p(2) by simp
  have "down * (real period - 1) \<noteq> d" "period \<noteq> 0"
    using \<open>0 \<le> down * (real period - 1)\<close> dneg Cons.prems(1) by auto
  then have step: "rsi_loop period (d # ds) 0 down r0 = rsi_loop period ds 0 ?down 0"
    using dneg by (simp add: Let_def)
  have "rsi_loop period ds 0 ?down 0 = (if ds = [] then 0 else 0)"
    using Cons.IH[OF Cons.prems(1) pos] Cons.prems(3) by simp
  then show ?case using step by simp
qed

lemma sum_list_neg:
  "xs \<noteq> [] \<Longrightarrow> \<forall>d \<in> set xs. d < (0::real) \<Longrightarrow> sum_list xs < 0"
  by (induction xs rule: induct_list012) (auto simp: add_neg_neg)

lemma sum_list_nonneg_real:
  "\<forall>d \<in> set xs. 0 \<le> (d::real) \<Longrightarrow> 0 \<le> sum_list xs"
  by (induction xs) auto

lemma sum_list_nonpos_real:
  "\<forall>d \<in> set xs. (d::real) \<le> 0 \<Longrightarrow> sum_list xs \<le> 0"
  by (induction xs) (auto simp: add_nonpos_nonpos)

lemma calculate_rsi_nondecreasing:
  assumes "0 < period" "period + 1 \<le> length prices" "sorted prices"
  shows "calculate_rsi prices period = Some 100"
proof -
  have "\<forall>d \<in> set (take period (np_diff prices)). 0 \<le> d"
    using np_diff_nonneg[OF assms(3)] by (meson in_set_takeD)
  then have "filter (\<lambda>d. d < 0) (take period (np_diff prices)) = []"
    by (auto simp: filter_empty_conv)
  then show ?thesis using assms(1,2) by (simp add: calculate_rsi_def Let_def)
qed

lemma calculate_rsi_decreasing:
  assumes "0 < period" "period + 1 \<le> length prices" "sorted_wrt (>) prices"
  shows "calculate_rsi prices period = Some 0"
proof -
  let ?deltas = "np_diff prices"
  let ?seed = "take period ?deltas"
  have neg: "\<forall>d \<in> set ?deltas. d < 0" by (rule np_diff_neg[OF assms(3)])
  have seed_neg: "\<forall>d \<in> set ?seed. d < 0" using neg by (meson in_set_takeD)
  have rest_neg: "\<forall>d \<in> set (drop period ?deltas). d < 0" using neg by (meson in_set_dropD)
  have "length ?seed = period" using assms(2) by (simp add: length_np_diff)
  then have ne: "?seed \<noteq> []" using assms(1) by auto
  have up0: "filter (\<lambda>d. d \<ge> 0) ?seed = []"
    using seed_neg by (auto simp: filter_empty_conv)
  have all: "filter (\<lambda>d. d < 0) ?seed = ?seed"
    using seed_neg by (simp add: filter_id_conv)
  have sneg: "sum_list ?seed < 0" by (rule sum_list_neg[OF ne seed_neg])
  from sneg have down: "0 < - sum_list ?seed / real period"
    using assms(1) by (intro divide_pos_pos) simp_all
  have "calculate_rsi prices period
        = Some (rsi_loop period (drop period ?deltas) 0 (- sum_list ?seed / real period) 0)"
    using assms(1,2) sneg up0 all by (simp add: calculate_rsi_def Let_def)
  also have "\<dots> = Some 0"
    using rsi_loop_all_losses[OF assms(1) down rest_neg, of 0] by simp
  finally show ?thesis .
qed

lemma calculate_rsi_range:
  assumes "0 < period"
  shows "\<exists>r. calculate_rsi prices period = Some r \<and> 0 \<le> r \<and> r \<le> 100"
proof (cases "length prices < period + 1")
  case True
  then show ?thesis by (simp add: calculate_rsi_def)
next
  case False
  let ?seed = "take period (np_diff prices)"
  let ?up = "sum_list (filter (\<lambda>d. d \<ge> 0) ?seed) / real period"
  let ?down = "- sum_list (filter (\<lambda>d. d < 0) ?seed) / real period"
  have up: "0 \<le> ?up" using assms by (simp add: sum_list_nonneg_real)
  have "sum_list (filter (\<lambda>d. d < 0) ?seed) \<le> 0"
    by (rule sum_list_nonpos_real) auto
  then have down: "0 \<le> ?down"
    using assms by (intro divide_nonneg_pos) simp_all
  show ?thesis
  proof (cases "?down = 0")
    case True
    then show ?thesis using False assms by (simp add: calculate_rsi_def Let_def)
  next
    case nz: False
    then have dpos: "0 < ?down" using down by linarith
    have r0: "0 \<le> 100 - 100 / (1 + ?up / ?down)" "100 - 100 / (1 + ?up / ?down) \<le> 100"
      using rsi_formula_bounds[OF up dpos] by blast+
    have "calculate_rsi prices period
          = Some (rsi_loop period (drop period (np_diff prices)) ?up ?down
                   (100 - 100 / (1 + ?up / ?down)))"
      using False assms nz by (simp add: calculate_rsi_def Let_def)
    then show ?thesis
      using rsi_loop_bounds[OF assms up down r0] by simp
  qed
qed

text \<open>
  Claim C6. For a positive period: the RSI of a monotonically non-decreasing price series
  is at least 50, the RSI of a strictly decreasing price series is at most 50, and the
  RSI of every price series lies within \<open>[0, 100]\<close>. (A series shorter than
  \<open>period + 1\<close> gives the neutral 50, which satisfies all three; on a series of
  sufficient length the first two values are exactly 100 and 0, by
  \<open>calculate_rsi_nondecreasing\<close> and \<open>calculate_rsi_decreasing\<close>.)
\<close>

theorem calculate_rsi_bounds:
  assumes "0 < period"
  shows "(sorted xs \<longrightarrow> (\<exists>r. calculate_rsi xs period = Some r \<and> 50 \<le> r))
       \<and> (sorted_wrt (>) ys \<longrightarrow> (\<exists>r. calculate_rsi ys period = Some r \<and> r \<le> 50))
       \<and> (\<exists>r. calculate_rsi zs period = Some r \<and> 0 \<le> r \<and> r \<le> 100)"
proof (intro conjI impI)
  assume s: "sorted xs"
  show "\<exists>r. calculate_rsi xs period = Some r \<and> 50 \<le> r"
  proof (cases "period + 1 \<le> length xs")
    case True
    then show ?thesis using calculate_rsi_nondecreasing[OF assms True s] by simp
  next
    case False
    then show ?thesis by (simp add: calculate_rsi_def)
  qed
next
  assume s: "sorted_wrt (>) ys"
  show "\<exists>r. calculate_rsi ys period = Some r \<and> r \<le> 50"
  proof (cases "period + 1 \<le> length ys")
    case True
    then show ?thesis using calculate_rsi_decreasing[OF assms True s] by simp
  next
    case False
    then show ?thesis by (simp add: calculate_rsi_def)
  qed
next
  show "\<exists>r. calculate_rsi zs period = Some r \<and> 0 \<le> r \<and> r \<le> 100"
    by (rule calculate_rsi_range[OF assms])
qed

theorem calculate_rsi_bounds_witness:
  "(0::nat) < 2 \<and> sorted [1, 2, 2, 3::real] \<and> calculate_rsi [1, 2, 2, 3] 2 = Some 100
   \<and> sorted_wrt (>) [4, 3, 2, 1::real] \<and> calculate_rsi [4, 3, 2, 1] 2 = Some 0
   \<and> calculate_rsi [3, 2, 3, 1] 2 = Some (50 / 3)"
  using calculate_rsi_bounds [of 2 "[1, 2, 2, 3]" "[4, 3, 2, 1]" "[3, 2, 3, 1]"]
  by (simp add: calculate_rsi_def)

text \<open>
  The loop of \<^const>\<open>calculate_rsi\<close> is Wilder's smoothing: started from the RSI of its
  averages it ends with the RSI of the smoothed averages.
\<close>

lemma rsi_loop_fold:
  "rsi_loop period ds up down (rsi_of_averages (up, down))
   = rsi_of_averages (fold (wilder_step period) ds (up, down))"
proof (induction ds arbitrary: up down)
  case Nil
  then show ?case by simp
next
  case (Cons d ds)
  have m: "(if d > 0 then d else 0) = max d 0" "(if d > 0 then 0 else - d) = max (- d) 0"
    by auto
  show ?case
    using Cons.IH by (simp add: Let_def wilder_step_def rsi_of_averages_def m max_def)
qed

text \<open>
  Where the code agrees with the specification's RSI: on a short series, on a series with
  no delta after the seed, and whenever the seed's average loss is not zero.
\<close>

lemma calculate_rsi_refines_spec:
  assumes "0 < period"
    and "length prices < period + 1
         \<or> sum_list (filter (\<lambda>d. d < 0) (take period (np_diff prices))) \<noteq> 0
         \<or> length prices = period + 1"
  shows "calculate_rsi prices period = Some (rsi_spec prices period)"
proof (cases "length prices < period + 1")
  case True
  then show ?thesis by (simp add: calculate_rsi_def rsi_spec_def)
next
  case False
  let ?seed = "take period (np_diff prices)"
  let ?up = "sum_list (filter (\<lambda>d. d \<ge> 0) ?seed) / real period"
  let ?down = "- sum_list (filter (\<lambda>d. d < 0) ?seed) / real period"
  show ?thesis
  proof (cases "?down = 0")
    case True
    then have "length prices = period + 1" using assms False by auto
    then have "drop period (np_diff prices) = []" by (simp add: length_np_diff)
    then show ?thesis using True False assms(1)
      by (simp add: calculate_rsi_def rsi_spec_def Let_def rsi_of_averages_def)
  next
    case nz: False
    have "100 - 100 / (1 + ?up / ?down) = rsi_of_averages (?up, ?down)"
      using nz by (simp add: rsi_of_averages_def)
    then show ?thesis using nz False assms(1) rsi_loop_fold[of period _ ?up ?down]
      by (simp add: calculate_rsi_def rsi_spec_def Let_def)
  qed
qed

text \<open>
  Claim C1. The claim: the averages are seeded from the first \<open>period\<close> deltas and then
  rolled forward over all remaining deltas, and the value returned is the RSI of the final
  step. The code returns 100 as soon as the seed's average loss is zero, without rolling
  forward: for the prices \<open>1, 2, 3, 1\<close> and period 2 the seed deltas \<open>1, 1\<close> have no
  loss and the code returns 100, while rolling the remaining delta \<open>-2\<close> forward gives
  the averages \<open>(1/2, 1)\<close> and the RSI \<open>100/3\<close>.
\<close>

theorem calculate_rsi_early_return:
  "calculate_rsi [1, 2, 3, 1] 2 = Some 100 \<and> rsi_spec [1, 2, 3, 1] 2 = 100 / 3"
  by (simp add: calculate_rsi_def rsi_spec_def wilder_step_def rsi_of_averages_def)
subsection \<open>Bollinger Bands\<close>

lemma np_std_nonneg: "0 \<le> np_std xs"
proof -
  have "0 \<le> sum_list (map (\<lambda>x. (x - np_mean xs)\<^sup>2) xs)"
    by (rule sum_list_nonneg) auto
  then have "0 \<le> np_mean (map (\<lambda>x. (x - np_mean xs)\<^sup>2) xs)"
    by (simp add: np_mean_def)
  then show ?thesis by (simp add: np_std_def)
qed

lemma bollinger_sufficient:
  assumes "0 < period" "period \<le> length prices"
  shows "calculate_bollinger_bands prices period k
         = Some \<lparr>upper = np_mean (drop (length prices - period) prices)
                          + k * np_std (drop (length prices - period) prices),
                  middle = np_mean (drop (length prices - period) prices),
                  lower = np_mean (drop (length prices - period) prices)
                          - k * np_std (drop (length prices - period) prices)\<rparr>"
proof -
  have "length (drop (length prices - period) prices) = period" using assms by simp
  then have "drop (length prices - period) prices \<noteq> []" using assms(1) by auto
  then show ?thesis
    using assms by (simp add: calculate_bollinger_bands_def py_tail_def Let_def)
qed

text \<open>
  Claim C7. For a non-negative band multiplier \<open>k\<close> and a positive period: on a price
  series with at least \<open>period\<close> elements the bands satisfy \<open>upper \<ge> middle \<ge> lower\<close>,
  strictly when \<open>k\<close> is positive and the population standard deviation of the last
  \<open>period\<close> prices is nonzero; on a shorter series the result is the all-zero bundle.
\<close>

theorem bollinger_bands_order:
  assumes "0 \<le> k"
  shows "(0 < period \<and> period \<le> length prices \<longrightarrow>
            (\<exists>b. calculate_bollinger_bands prices period k = Some b
                \<and> upper b \<ge> middle b \<and> middle b \<ge> lower b
                \<and> (0 < k \<and> np_std (drop (length prices - period) prices) \<noteq> 0
                     \<longrightarrow> upper b > middle b \<and> middle b > lower b)))
       \<and> (length prices < period \<longrightarrow>
            calculate_bollinger_bands prices period k
            = Some \<lparr>upper = 0, middle = 0, lower = 0\<rparr>)"
proof (intro conjI impI)
  assume a: "0 < period \<and> period \<le> length prices"
  let ?w = "drop (length prices - period) prices"
  let ?b = "\<lparr>upper = np_mean ?w + k * np_std ?w, middle = np_mean ?w,
            lower = np_mean ?w - k * np_std ?w\<rparr>"
  have e: "calculate_bollinger_bands prices period k = Some ?b"
    using a by (simp add: bollinger_sufficient)
  have nn: "0 \<le> k * np_std ?w" using assms np_std_nonneg by simp
  have strict: "0 < k \<and> np_std ?w \<noteq> 0 \<longrightarrow> upper ?b > middle ?b \<and> middle ?b > lower ?b"
  proof
    assume s: "0 < k \<and> np_std ?w \<noteq> 0"
    then have "0 < np_std ?w" using np_std_nonneg[of ?w] by linarith
    then have "0 < k * np_std ?w" using s by simp
    then show "upper ?b > middle ?b \<and> middle ?b > lower ?b" by simp
  qed
  have "upper ?b \<ge> middle ?b \<and> middle ?b \<ge> lower ?b" using nn by simp
  then show "\<exists>b. calculate_bollinger_bands prices period k = Some b
                \<and> upper b \<ge> middle b \<and> middle b \<ge> lower b
                \<and> (0 < k \<and> np_std (drop (length prices - period) prices) \<noteq> 0
                     \<longrightarrow> upper b > middle b \<and> middle b > lower b)"
    using e strict by blast
next
  assume "length prices < period"
  then show "calculate_bollinger_bands prices period k = Some \<lparr>upper = 0, middle = 0, lower = 0\<rparr>"
    by (simp add: calculate_bollinger_bands_def)
qed

lemma np_std_example: "np_std [1, 3] = 1"
  by (simp add: np_std_def np_mean_def)

theorem bollinger_bands_order_witness:
  "(0::real) \<le> 2 \<and> (0::nat) < 2 \<and> 2 \<le> length [5, 1, 3 :: real]
   \<and> np_std (drop (length [5, 1, 3 :: real] - 2) [5, 1, 3]) = 1
   \<and> calculate_bollinger_bands [5, 1, 3] 2 2 = Some \<lparr>upper = 4, middle = 2, lower = 0\<rparr>
   \<and> length [7 :: real] < 2
   \<and> calculate_bollinger_bands [7] 2 2 = Some \<lparr>upper = 0, middle = 0, lower = 0\<rparr>"
  using bollinger_bands_order[of 2 2 "[5, 1, 3]"] bollinger_bands_order[of 2 2 "[7]"]
  by (simp add: bollinger_sufficient np_std_example np_mean_def)

section \<open>Properties of the signal detector\<close>

subsection \<open>Signals and confidence\<close>

lemma is_strictly_increasing_iff: "is_strictly_increasing xs \<longleftrightarrow> sorted_wrt (<) xs"
proof -
  have "is_strictly_increasing xs \<longleftrightarrow> (\<forall>i. Suc i < length xs \<longrightarrow> xs ! i < xs ! Suc i)"
    by (auto simp: is_strictly_increasing_def list_all_iff)
  also have "\<dots> \<longleftrightarrow> sorted_wrt (<) xs"
    by (rule sorted_wrt_iff_nth_Suc_transp[symmetric]) (auto intro: transpI)
  finally show ?thesis .
qed

lemma is_strictly_decreasing_iff: "is_strictly_decreasing xs \<longleftrightarrow> sorted_wrt (>) xs"
proof -
  have "is_strictly_decreasing xs \<longleftrightarrow> (\<forall>i. Suc i < length xs \<longrightarrow> xs ! i > xs ! Suc i)"
    by (auto simp: is_strictly_decreasing_def list_all_iff)
  also have "\<dots> \<longleftrightarrow> sorted_wrt (>) xs"
    by (rule sorted_wrt_iff_nth_Suc_transp[symmetric]) (auto intro: transpI)
  finally show ?thesis .
qed

lemma calculate_confidence_curve:
  assumes "0 < threshold"
  shows "calculate_confidence change threshold =
           Inr (if change \<le> threshold then 1 / 2
                else if change \<le> 2 * threshold then 1 / 2 + (change - threshold) / (2 * threshold)
                else 1)"
  using assms by (auto simp: calculate_confidence_def Let_def min_def field_simps)

lemma confidence_curve_mono:
  assumes "0 < threshold" "m \<le> m'"
  shows "confidence_curve threshold m \<le> confidence_curve threshold m'"
  using assms by (auto simp: confidence_curve_def field_simps)

lemma confidence_curve_range:
  assumes "0 < threshold"
  shows "1 / 2 \<le> confidence_curve threshold m" "confidence_curve threshold m \<le> 1"
  using assms by (auto simp: confidence_curve_def field_simps)



lemma detect_signal_unfold:
  "detect_signal lookback threshold klines =
     (if length klines < lookback
      then Inr \<lparr>signal = NoSignal, confidence = 0, cumulative_change = 0, details = None\<rparr>
      else if py_tail lookback klines = [] then Inl IndexError
      else if k_close (hd (py_tail lookback klines)) = 0 then Inl ZeroDivisionError
      else window_result lookback threshold (py_tail lookback klines))"
proof (cases "py_tail lookback klines = []")
  case True
  then show ?thesis by (simp only: detect_signal_def Let_def list.map if_True refl)
next
  case False
  then have ne: "(map k_close (py_tail lookback klines) = []) = False" by simp
  have h: "hd (map k_close (py_tail lookback klines)) = k_close (hd (py_tail lookback klines))"
    using False by (rule hd_map)
  have l: "last (map k_close (py_tail lookback klines)) = k_close (last (py_tail lookback klines))"
    using False by (rule last_map)
  have f: "(py_tail lookback klines = []) = False" using False by simp
  show ?thesis
    by (simp only: detect_signal_def window_result_def Let_def h l ne f if_False)
qed


lemma calculate_confidence_total:
  assumes "threshold \<noteq> 0"
  shows "\<exists>c. calculate_confidence change threshold = Inr c"
proof (cases "change \<le> threshold")
  case True
  then have "calculate_confidence change threshold = Inr 0.5"
    by (simp only: calculate_confidence_def if_True)
  then show ?thesis by (rule exI)
next
  case False
  then have "calculate_confidence change threshold
             = Inr (0.5 + (min (change - threshold) threshold / threshold) * 0.5)"
    using assms by (simp only: calculate_confidence_def Let_def if_False)
  then show ?thesis by (rule exI)
qed

lemma window_result_shape:
  fixes w :: "candle list" and threshold :: real
  defines "cum \<equiv> (k_close (last w) - k_close (hd w)) / k_close (hd w) * 100"
  defines "buy \<equiv> cum > threshold \<and> is_strictly_increasing (map k_low w)
     \<and> is_strictly_increasing (map k_close w) \<and> is_strictly_increasing (map k_high w)"
  defines "sell \<equiv> cum < - threshold \<and> is_strictly_decreasing (map k_low w)
     \<and> is_strictly_decreasing (map k_close w) \<and> is_strictly_decreasing (map k_high w)"
  shows "\<exists>d. window_result lookback threshold w =
           (if buy then (case calculate_confidence cum threshold of Inl e \<Rightarrow> Inl e
               | Inr c \<Rightarrow> Inr \<lparr>signal = Buy, confidence = c, cumulative_change = cum, details = d\<rparr>)
            else if sell then (case calculate_confidence \<bar>cum\<bar> threshold of Inl e \<Rightarrow> Inl e
               | Inr c \<Rightarrow> Inr \<lparr>signal = Sell, confidence = c, cumulative_change = cum, details = d\<rparr>)
            else Inr \<lparr>signal = NoSignal, confidence = 0, cumulative_change = cum, details = d\<rparr>)"
  unfolding window_result_def Let_def cum_def buy_def sell_def by (rule exI) (rule refl)

lemma window_result_buy_iff:
  assumes "threshold \<noteq> 0"
  shows "\<exists>r. window_result lookback threshold w = Inr r
           \<and> cumulative_change r = (k_close (last w) - k_close (hd w)) / k_close (hd w) * 100
           \<and> (signal r = Buy \<longleftrightarrow>
                 cumulative_change r > threshold
                 \<and> sorted_wrt (<) (map k_low w)
                 \<and> sorted_wrt (<) (map k_close w)
                 \<and> sorted_wrt (<) (map k_high w))"
proof -
  define cum where "cum = (k_close (last w) - k_close (hd w)) / k_close (hd w) * 100"
  define buy where "buy \<longleftrightarrow> cum > threshold \<and> is_strictly_increasing (map k_low w)
     \<and> is_strictly_increasing (map k_close w) \<and> is_strictly_increasing (map k_high w)"
  define sell where "sell \<longleftrightarrow> cum < - threshold \<and> is_strictly_decreasing (map k_low w)
     \<and> is_strictly_decreasing (map k_close w) \<and> is_strictly_decreasing (map k_high w)"
  obtain d where shape: "window_result lookback threshold w =
           (if buy then (case calculate_confidence cum threshold of Inl e \<Rightarrow> Inl e
               | Inr c \<Rightarrow> Inr \<lparr>signal = Buy, confidence = c, cumulative_change = cum, details = d\<rparr>)
            else if sell then (case calculate_confidence \<bar>cum\<bar> threshold of Inl e \<Rightarrow> Inl e
               | Inr c \<Rightarrow> Inr \<lparr>signal = Sell, confidence = c, cumulative_change = cum, details = d\<rparr>)
            else Inr \<lparr>signal = NoSignal, confidence = 0, cumulative_change = cum, details = d\<rparr>)"
    using window_result_shape[of lookback threshold w]
    unfolding cum_def buy_def sell_def by blast
  obtain c1 where c1: "calculate_confidence cum threshold = Inr c1"
    using calculate_confidence_total[OF assms] by blast
  obtain c2 where c2: "calculate_confidence \<bar>cum\<bar> threshold = Inr c2"
    using calculate_confidence_total[OF assms] by blast
  have buy_iff: "buy \<longleftrightarrow> cum > threshold \<and> sorted_wrt (<) (map k_low w)
      \<and> sorted_wrt (<) (map k_close w) \<and> sorted_wrt (<) (map k_high w)"
    by (simp only: buy_def is_strictly_increasing_iff)
  have "\<exists>r. window_result lookback threshold w = Inr r \<and> cumulative_change r = cum
          \<and> (signal r = Buy \<longleftrightarrow> buy)"
    by (cases buy; cases sell) (simp_all add: shape c1 c2)
  then obtain r where r: "window_result lookback threshold w = Inr r"
      "cumulative_change r = cum" "signal r = Buy \<longleftrightarrow> buy"
    by blast
  show ?thesis
  proof (intro exI conjI)
    show "window_result lookback threshold w = Inr r" by (rule r(1))
    show "cumulative_change r = (k_close (last w) - k_close (hd w)) / k_close (hd w) * 100"
      using r(2) by (simp only: cum_def)
    show "signal r = Buy \<longleftrightarrow>
            cumulative_change r > threshold
            \<and> sorted_wrt (<) (map k_low w)
            \<and> sorted_wrt (<) (map k_close w)
            \<and> sorted_wrt (<) (map k_high w)"
      using r(3) buy_iff by (simp only: r(2))
  qed
qed

lemma window_result_cases:
  assumes "window_result lookback threshold w = Inr r" and "0 < threshold"
  shows "(signal r = Buy \<and> threshold < cumulative_change r
            \<and> confidence r = confidence_curve threshold \<bar>cumulative_change r\<bar>)
       \<or> (signal r = Sell \<and> cumulative_change r < - threshold
            \<and> confidence r = confidence_curve threshold \<bar>cumulative_change r\<bar>)
       \<or> (signal r = NoSignal \<and> confidence r = 0)"
proof -
  define cum where "cum = (k_close (last w) - k_close (hd w)) / k_close (hd w) * 100"
  define buy where "buy \<longleftrightarrow> cum > threshold \<and> is_strictly_increasing (map k_low w)
     \<and> is_strictly_increasing (map k_close w) \<and> is_strictly_increasing (map k_high w)"
  define sell where "sell \<longleftrightarrow> cum < - threshold \<and> is_strictly_decreasing (map k_low w)
     \<and> is_strictly_decreasing (map k_close w) \<and> is_strictly_decreasing (map k_high w)"
  obtain d where shape: "window_result lookback threshold w =
           (if buy then (case calculate_confidence cum threshold of Inl e \<Rightarrow> Inl e
               | Inr c \<Rightarrow> Inr \<lparr>signal = Buy, confidence = c, cumulative_change = cum, details = d\<rparr>)
            else if sell then (case calculate_confidence \<bar>cum\<bar> threshold of Inl e \<Rightarrow> Inl e
               | Inr c \<Rightarrow> Inr \<lparr>signal = Sell, confidence = c, cumulative_change = cum, details = d\<rparr>)
            else Inr \<lparr>signal = NoSignal, confidence = 0, cumulative_change = cum, details = d\<rparr>)"
    using window_result_shape[of lookback threshold w]
    unfolding cum_def buy_def sell_def by blast
  have cc: "\<And>m. calculate_confidence m threshold = Inr (confidence_curve threshold m)"
    using calculate_confidence_curve[OF assms(2)] by (simp add: confidence_curve_def)
  show ?thesis
  proof (cases buy)
    case True
    then have r: "r = \<lparr>signal = Buy, confidence = confidence_curve threshold cum,
                        cumulative_change = cum, details = d\<rparr>"
      using assms(1) by (simp add: shape cc)
    have "threshold < cum" using True by (simp add: buy_def)
    then have "\<bar>cum\<bar> = cum" using assms(2) by linarith
    then show ?thesis using r \<open>threshold < cum\<close> by simp
  next
    case nb: False
    show ?thesis
    proof (cases sell)
      case True
      then have r: "r = \<lparr>signal = Sell, confidence = confidence_curve threshold \<bar>cum\<bar>,
                          cumulative_change = cum, details = d\<rparr>"
        using assms(1) nb by (simp add: shape cc)
      have "cum < - threshold" using True by (simp add: sell_def)
      then show ?thesis using r by simp
    next
      case False
      then have "r = \<lparr>signal = NoSignal, confidence = 0, cumulative_change = cum, details = d\<rparr>"
        using assms(1) nb by (simp add: shape)
      then show ?thesis by simp
    qed
  qed
qed

lemma detect_signal_cases:
  assumes "detect_signal lookback threshold klines = Inr r" and "0 < threshold"
  shows "(signal r = Buy \<and> threshold < cumulative_change r
            \<and> confidence r = confidence_curve threshold \<bar>cumulative_change r\<bar>)
       \<or> (signal r = Sell \<and> cumulative_change r < - threshold
            \<and> confidence r = confidence_curve threshold \<bar>cumulative_change r\<bar>)
       \<or> (signal r = NoSignal \<and> confidence r = 0)"
proof (cases "length klines < lookback")
  case True
  then have "r = \<lparr>signal = NoSignal, confidence = 0, cumulative_change = 0, details = None\<rparr>"
    using assms(1) by (simp add: detect_signal_unfold)
  then show ?thesis by simp
next
  case False
  then have "window_result lookback threshold (py_tail lookback klines) = Inr r"
    using assms(1) by (simp add: detect_signal_unfold split: if_splits)
  then show ?thesis by (rule window_result_cases[OF _ assms(2)])
qed


lemma py_tail_append_3: "py_tail 3 (pre @ [c0, c1, c2]) = [c0, c1, c2]"
  by (simp add: py_tail_def)

lemma candle_of_simps [simp]:
  "k_low (candle_of lo cl hi) = lo" "k_close (candle_of lo cl hi) = cl"
  "k_high (candle_of lo cl hi) = hi"
  by (simp_all add: candle_of_def)

text \<open>
  Claim C2, as amended. For a positive lookback, a candle list with at least that many
  candles whose window (the last \<open>lookback\<close> candles) has a nonzero first close, and a
  nonzero threshold, \<^const>\<open>detect_signal\<close> returns a result whose cumulative change is
  \<open>(last_close - first_close) / first_close \<times> 100\<close> over the window, and the signal is
  buy if and only if that change exceeds the threshold and the window's lows, closes
  and highs are each strictly increasing. In particular, when the last three candles
  have the closes 100, 101, 102 and strictly increasing lows and highs, lookback 3 and
  threshold 0.1 give signal buy, cumulative change 2.0 and confidence 1.0.
\<close>

theorem detect_signal_buy_iff:
  fixes klines :: "candle list" and lookback :: nat and threshold :: real
  defines "window \<equiv> drop (length klines - lookback) klines"
  shows "(0 < lookback \<and> lookback \<le> length klines \<and> k_close (hd window) \<noteq> 0 \<and> threshold \<noteq> 0
          \<longrightarrow> (\<exists>r. detect_signal lookback threshold klines = Inr r
                \<and> cumulative_change r
                    = (k_close (last window) - k_close (hd window)) / k_close (hd window) * 100
                \<and> (signal r = Buy \<longleftrightarrow>
                      cumulative_change r > threshold
                      \<and> sorted_wrt (<) (map k_low window)
                      \<and> sorted_wrt (<) (map k_close window)
                      \<and> sorted_wrt (<) (map k_high window))))
       \<and> (k_close c0 = 100 \<and> k_close c1 = 101 \<and> k_close c2 = 102
          \<and> k_low c0 < k_low c1 \<and> k_low c1 < k_low c2
          \<and> k_high c0 < k_high c1 \<and> k_high c1 < k_high c2
          \<longrightarrow> (\<exists>r. detect_signal 3 (1 / 10) (pre @ [c0, c1, c2]) = Inr r
                \<and> signal r = Buy \<and> cumulative_change r = 2 \<and> confidence r = 1))"
proof (intro conjI impI)
  assume a: "0 < lookback \<and> lookback \<le> length klines \<and> k_close (hd window) \<noteq> 0
             \<and> threshold \<noteq> 0"
  then have w: "py_tail lookback klines = window"
    by (simp add: py_tail_def window_def)
  have "length window = lookback" using a by (simp add: window_def)
  then have "window \<noteq> []" using a by auto
  then have "detect_signal lookback threshold klines = window_result lookback threshold window"
    using a w by (simp add: detect_signal_unfold)
  then show "\<exists>r. detect_signal lookback threshold klines = Inr r
                \<and> cumulative_change r
                    = (k_close (last window) - k_close (hd window)) / k_close (hd window) * 100
                \<and> (signal r = Buy \<longleftrightarrow>
                      cumulative_change r > threshold
                      \<and> sorted_wrt (<) (map k_low window)
                      \<and> sorted_wrt (<) (map k_close window)
                      \<and> sorted_wrt (<) (map k_high window))"
    using window_result_buy_iff[of threshold lookback window] a by simp
next
  assume a: "k_close c0 = 100 \<and> k_close c1 = 101 \<and> k_close c2 = 102
          \<and> k_low c0 < k_low c1 \<and> k_low c1 < k_low c2
          \<and> k_high c0 < k_high c1 \<and> k_high c1 < k_high c2"
  let ?w = "[c0, c1, c2]"
  have d: "detect_signal 3 (1 / 10) (pre @ ?w) = window_result 3 (1 / 10) ?w"
    using a by (simp add: detect_signal_unfold py_tail_append_3)
  obtain r where r: "window_result 3 (1 / 10) ?w = Inr r"
      "cumulative_change r = (k_close (last ?w) - k_close (hd ?w)) / k_close (hd ?w) * 100"
      "signal r = Buy \<longleftrightarrow>
         cumulative_change r > 1 / 10 \<and> sorted_wrt (<) (map k_low ?w)
         \<and> sorted_wrt (<) (map k_close ?w) \<and> sorted_wrt (<) (map k_high ?w)"
  proof -
    have nz: "(1 / 10 :: real) \<noteq> 0" by simp
    show ?thesis using window_result_buy_iff[OF nz, of 3 ?w] that by blast
  qed
  have cum: "cumulative_change r = 2" using r(2) a by simp
  have buy: "signal r = Buy" using r(3) cum a by simp
  have "confidence r = confidence_curve (1 / 10) \<bar>cumulative_change r\<bar>"
    using window_result_cases[OF r(1)] buy by auto
  then have "confidence r = 1" using cum by (simp add: confidence_curve_def)
  then show "\<exists>r. detect_signal 3 (1 / 10) (pre @ [c0, c1, c2]) = Inr r
                \<and> signal r = Buy \<and> cumulative_change r = 2 \<and> confidence r = 1"
    using d r(1) buy cum by simp
qed


theorem detect_signal_buy_iff_witness:
  "(0::nat) < 3
   \<and> 3 \<le> length [candle_of 98 99 100, candle_of 99 100 101, candle_of 100 101 102, candle_of 101 102 103]
   \<and> k_close (hd (drop 1 [candle_of 98 99 100, candle_of 99 100 101, candle_of 100 101 102, candle_of 101 102 103])) \<noteq> 0
   \<and> (1 / 10 :: real) \<noteq> 0
   \<and> (\<exists>r. detect_signal 3 (1 / 10)
             [candle_of 98 99 100, candle_of 99 100 101, candle_of 100 101 102, candle_of 101 102 103]
            = Inr r \<and> signal r = Buy \<and> cumulative_change r = 2 \<and> confidence r = 1)"
  using detect_signal_buy_iff[where klines = "[candle_of 98 99 100, candle_of 99 100 101, candle_of 100 101 102, candle_of 101 102 103]"
      and lookback = 3 and threshold = "1 / 10"
      and ?c0.0 = "candle_of 99 100 101" and ?c1.0 = "candle_of 100 101 102"
      and ?c2.0 = "candle_of 101 102 103" and pre = "[candle_of 98 99 100]"]
  by simp

text \<open>
  Claim C2 as stated, without the condition on the threshold, fails: with threshold 0 a
  window with the closes 100, 101, 102 and strictly increasing lows and highs has a
  nonzero first close and a cumulative change of 2, above the threshold, yet no buy is
  returned: \<^const>\<open>calculate_confidence\<close> divides by the threshold and the call raises.
\<close>

theorem detect_signal_zero_threshold_counterexample:
  "k_close (hd [candle_of 99 100 101, candle_of 100 101 102, candle_of 101 102 103]) = 100
   \<and> (k_close (last [candle_of 99 100 101, candle_of 100 101 102, candle_of 101 102 103])
        - k_close (hd [candle_of 99 100 101, candle_of 100 101 102, candle_of 101 102 103]))
       / k_close (hd [candle_of 99 100 101, candle_of 100 101 102, candle_of 101 102 103]) * 100
       = 2
   \<and> sorted_wrt (<) (map k_low [candle_of 99 100 101, candle_of 100 101 102, candle_of 101 102 103])
   \<and> sorted_wrt (<) (map k_close [candle_of 99 100 101, candle_of 100 101 102, candle_of 101 102 103])
   \<and> sorted_wrt (<) (map k_high [candle_of 99 100 101, candle_of 100 101 102, candle_of 101 102 103])
   \<and> detect_signal 3 0 [candle_of 99 100 101, candle_of 100 101 102, candle_of 101 102 103]
       = Inl ZeroDivisionError"
  by (simp add: detect_signal_unfold window_result_def py_tail_def Let_def
                is_strictly_increasing_iff is_strictly_decreasing_iff
                calculate_confidence_def label_of_def)

lemma ex_buy_A:
  "detect_signal 3 (3 / 2) [candle_of 99 100 101, candle_of 100 101 102, candle_of 101 102 103]
   = Inr \<lparr>signal = Buy, confidence = 2 / 3, cumulative_change = 2,
          details = Some \<lparr>low_sequence = Increasing, close_sequence = Increasing,
                          high_sequence = Increasing, lookback_periods = 3,
                          change_threshold = 3 / 2\<rparr>\<rparr>"
  by (simp add: detect_signal_unfold window_result_def py_tail_def Let_def
                is_strictly_increasing_iff is_strictly_decreasing_iff
                calculate_confidence_def label_of_def)

lemma ex_sell_B:
  "detect_signal 3 (3 / 2) [candle_of 103 104 105, candle_of 101 102 103, candle_of 99 100 101]
   = Inr \<lparr>signal = Sell, confidence = 1, cumulative_change = - (50 / 13),
          details = Some \<lparr>low_sequence = Decreasing, close_sequence = Decreasing,
                          high_sequence = Decreasing, lookback_periods = 3,
                          change_threshold = 3 / 2\<rparr>\<rparr>"
  by (simp add: detect_signal_unfold window_result_def py_tail_def Let_def
                is_strictly_increasing_iff is_strictly_decreasing_iff
                calculate_confidence_def label_of_def)


text \<open>
  Claim C3. For a positive threshold and every result of \<^const>\<open>detect_signal\<close>: a buy
  or sell has a confidence within \<open>[0.5, 1.0]\<close>, its magnitude \<open>|cumulative_change|\<close>
  exceeds the threshold, and the confidence is \<open>0.5 + (magnitude - threshold) / (2 \<times>
  threshold)\<close> up to twice the threshold and \<open>1.0\<close> beyond; of two detected signals the
  one with the larger magnitude has at least the confidence of the other; and the
  confidence is exactly 0 if and only if the signal is none.
\<close>

theorem detect_signal_confidence:
  assumes "0 < threshold"
    and "detect_signal lookback threshold klines = Inr r"
    and "detect_signal lookback' threshold klines' = Inr r'"
  shows "(signal r \<noteq> NoSignal \<longrightarrow>
            1 / 2 \<le> confidence r \<and> confidence r \<le> 1
            \<and> threshold < \<bar>cumulative_change r\<bar>
            \<and> confidence r = (if \<bar>cumulative_change r\<bar> \<le> 2 * threshold
                              then 1 / 2 + (\<bar>cumulative_change r\<bar> - threshold) / (2 * threshold)
                              else 1))
       \<and> (signal r \<noteq> NoSignal \<and> signal r' \<noteq> NoSignal
            \<and> \<bar>cumulative_change r\<bar> \<le> \<bar>cumulative_change r'\<bar>
            \<longrightarrow> confidence r \<le> confidence r')
       \<and> (confidence r = 0 \<longleftrightarrow> signal r = NoSignal)"
proof -
  note c = detect_signal_cases[OF assms(2) assms(1)]
  note c' = detect_signal_cases[OF assms(3) assms(1)]
  have range: "\<And>m. 1 / 2 \<le> confidence_curve threshold m \<and> confidence_curve threshold m \<le> 1"
    using confidence_curve_range[OF assms(1)] by blast
  have p1: "signal r \<noteq> NoSignal \<longrightarrow>
            1 / 2 \<le> confidence r \<and> confidence r \<le> 1
            \<and> threshold < \<bar>cumulative_change r\<bar>
            \<and> confidence r = (if \<bar>cumulative_change r\<bar> \<le> 2 * threshold
                              then 1 / 2 + (\<bar>cumulative_change r\<bar> - threshold) / (2 * threshold)
                              else 1)"
  proof
    assume "signal r \<noteq> NoSignal"
    then have m: "threshold < \<bar>cumulative_change r\<bar>"
      and e: "confidence r = confidence_curve threshold \<bar>cumulative_change r\<bar>"
      using c by auto
    have ce: "confidence_curve threshold \<bar>cumulative_change r\<bar>
          = (if \<bar>cumulative_change r\<bar> \<le> 2 * threshold
             then 1 / 2 + (\<bar>cumulative_change r\<bar> - threshold) / (2 * threshold) else 1)"
      using m by (simp add: confidence_curve_def)
    have b: "1 / 2 \<le> confidence r" "confidence r \<le> 1"
      using range[of "\<bar>cumulative_change r\<bar>"] by (simp_all only: e)
    have f: "confidence r = (if \<bar>cumulative_change r\<bar> \<le> 2 * threshold
                              then 1 / 2 + (\<bar>cumulative_change r\<bar> - threshold) / (2 * threshold)
                              else 1)"
      by (rule trans[OF e ce])
    show "1 / 2 \<le> confidence r \<and> confidence r \<le> 1
            \<and> threshold < \<bar>cumulative_change r\<bar>
            \<and> confidence r = (if \<bar>cumulative_change r\<bar> \<le> 2 * threshold
                              then 1 / 2 + (\<bar>cumulative_change r\<bar> - threshold) / (2 * threshold)
                              else 1)"
      by (intro conjI) (rule b m f)+
  qed
  have p2: "signal r \<noteq> NoSignal \<and> signal r' \<noteq> NoSignal
            \<and> \<bar>cumulative_change r\<bar> \<le> \<bar>cumulative_change r'\<bar>
            \<longrightarrow> confidence r \<le> confidence r'"
  proof
    assume a: "signal r \<noteq> NoSignal \<and> signal r' \<noteq> NoSignal
            \<and> \<bar>cumulative_change r\<bar> \<le> \<bar>cumulative_change r'\<bar>"
    have "confidence r = confidence_curve threshold \<bar>cumulative_change r\<bar>"
      using c a by auto
    moreover have "confidence r' = confidence_curve threshold \<bar>cumulative_change r'\<bar>"
      using c' a by auto
    ultimately show "confidence r \<le> confidence r'"
      using confidence_curve_mono[OF assms(1), of "\<bar>cumulative_change r\<bar>" "\<bar>cumulative_change r'\<bar>"] a
      by simp
  qed
  have p3: "confidence r = 0 \<longleftrightarrow> signal r = NoSignal"
  proof
    assume z: "confidence r = 0"
    show "signal r = NoSignal"
    proof (rule ccontr)
      assume "signal r \<noteq> NoSignal"
      then have "1 / 2 \<le> confidence r" using p1 by blast
      then show False using z by simp
    qed
  next
    assume "signal r = NoSignal"
    then show "confidence r = 0" using c by auto
  qed
  show ?thesis using p1 p2 p3 by blast
qed

theorem detect_signal_confidence_witness:
  "(0::real) < 3 / 2
   \<and> detect_signal 3 (3 / 2) [candle_of 99 100 101, candle_of 100 101 102, candle_of 101 102 103]
       = Inr \<lparr>signal = Buy, confidence = 2 / 3, cumulative_change = 2,
          details = Some \<lparr>low_sequence = Increasing, close_sequence = Increasing,
                          high_sequence = Increasing, lookback_periods = 3,
                          change_threshold = 3 / 2\<rparr>\<rparr>
   \<and> detect_signal 3 (3 / 2) [candle_of 103 104 105, candle_of 101 102 103, candle_of 99 100 101]
       = Inr \<lparr>signal = Sell, confidence = 1, cumulative_change = - (50 / 13),
          details = Some \<lparr>low_sequence = Decreasing, close_sequence = Decreasing,
                          high_sequence = Decreasing, lookback_periods = 3,
                          change_threshold = 3 / 2\<rparr>\<rparr>
   \<and> (2 / 3 :: real) \<le> 1"
  using detect_signal_confidence[OF _ ex_buy_A ex_sell_B] ex_buy_A ex_sell_B
  by simp

subsection \<open>Trend classification\<close>

lemma analyze_trend_unfold:
  assumes "klines \<noteq> []"
  shows "analyze_trend klines ema_values =
     \<lparr>trend = classify_trend
                (fold (position_step (k_close (last klines))) (sort_key fst ema_values) []),
      ema_positions = fold (position_step (k_close (last klines))) (sort_key fst ema_values) [],
      price = Some (k_close (last klines))\<rparr>"
proof -
  have f: "(klines = []) = False" using assms by simp
  show ?thesis
    by (simp only: analyze_trend_def classify_trend_def Let_def f if_False)
qed

lemma update_fresh: "k \<notin> fst ` set al \<Longrightarrow> AList.update k v al = al @ [(k, v)]"
  by (induction al) auto

lemma position_step_simps:
  "position_step lc (p, 0) acc = acc"
  "v \<noteq> 0 \<Longrightarrow> position_step lc (p, v) acc = AList.update p (position_info lc v) acc"
  by (simp_all add: position_step_def position_info_def Let_def)

lemma fold_position_step:
  assumes "distinct (map fst xs)" and "fst ` set acc \<inter> fst ` set xs = {}"
  shows "fold (position_step lc) xs acc
         = acc @ map (\<lambda>(p, v). (p, position_info lc v)) (filter (\<lambda>(p, v). v \<noteq> 0) xs)"
  using assms
proof (induction xs arbitrary: acc)
  case Nil
  then show ?case by simp
next
  case (Cons x xs)
  obtain p v where x: "x = (p, v)" by (cases x)
  have d: "distinct (map fst xs)" and fresh: "p \<notin> fst ` set xs"
    using Cons.prems(1) x by auto
  have pacc: "p \<notin> fst ` set acc" using Cons.prems(2) x by auto
  show ?case
  proof (cases "v = 0")
    case True
    have "fst ` set acc \<inter> fst ` set xs = {}" using Cons.prems(2) by auto
    from Cons.IH[OF d this] show ?thesis using True x by (simp add: position_step_simps)
  next
    case False
    let ?acc = "acc @ [(p, position_info lc v)]"
    have "fst ` set ?acc \<inter> fst ` set xs = {}" using Cons.prems(2) fresh by auto
    from Cons.IH[OF d this] show ?thesis
      using False x pacc by (simp add: position_step_simps update_fresh)
  qed
qed

lemma distinct_map_sort_key: "distinct (map f (sort_key f xs)) = distinct (map f xs)"
  by (induction xs) (simp_all add: distinct_insort_key)

lemma strict_sorted_keys:
  assumes "distinct (map fst (xs :: (nat \<times> 'b) list))"
  shows "sorted_wrt (<) (map fst (sort_key fst xs))"
  using assms by (simp add: strict_sorted_iff distinct_map_sort_key)


lemma adjacent_gt_iff:
  "list_all (\<lambda>i. f (l ! i) > f (l ! (i + 1))) [0..<length l - 1]
   \<longleftrightarrow> sorted_wrt (>) (map f l :: real list)"
proof -
  have "list_all (\<lambda>i. f (l ! i) > f (l ! (i + 1))) [0..<length l - 1]
        \<longleftrightarrow> (\<forall>i. Suc i < length (map f l) \<longrightarrow> map f l ! i > map f l ! Suc i)"
    by (auto simp: list_all_iff)
  also have "\<dots> \<longleftrightarrow> sorted_wrt (>) (map f l)"
    by (rule sorted_wrt_iff_nth_Suc_transp[symmetric]) (auto intro: transpI)
  finally show ?thesis .
qed

lemma adjacent_lt_iff:
  "list_all (\<lambda>i. f (l ! i) < f (l ! (i + 1))) [0..<length l - 1]
   \<longleftrightarrow> sorted_wrt (<) (map f l :: real list)"
proof -
  have "list_all (\<lambda>i. f (l ! i) < f (l ! (i + 1))) [0..<length l - 1]
        \<longleftrightarrow> (\<forall>i. Suc i < length (map f l) \<longrightarrow> map f l ! i < map f l ! Suc i)"
    by (auto simp: list_all_iff)
  also have "\<dots> \<longleftrightarrow> sorted_wrt (<) (map f l)"
    by (rule sorted_wrt_iff_nth_Suc_transp[symmetric]) (auto intro: transpI)
  finally show ?thesis .
qed

lemma lookup_position_member:
  "distinct (map fst ps) \<Longrightarrow> (p, i) \<in> set ps \<Longrightarrow> lookup_position ps p = i"
  by (simp add: lookup_position_def)

lemma map_lookup_keys:
  assumes "distinct (map fst ps)"
  shows "map (\<lambda>p. g p (lookup_position ps p)) (map fst ps) = map (\<lambda>(p, i). g p i) ps"
  using lookup_position_member[OF assms] by (auto simp: map_eq_conv)

lemma list_all_lookup_keys:
  assumes "distinct (map fst ps)"
  shows "list_all (\<lambda>p. P (lookup_position ps p)) (map fst ps) \<longleftrightarrow> list_all (\<lambda>(p, i). P i) ps"
  using lookup_position_member[OF assms] by (auto simp: list_all_iff)

lemma classify_trend_sorted:
  assumes "sorted_wrt (<) (map fst ps)"
  shows "classify_trend ps =
     (if length ps < 2 then Neutral
      else if list_all (\<lambda>(p, i). position i = Above) ps then StrongBullish
      else if list_all (\<lambda>(p, i). position i = Below) ps then StrongBearish
      else if sorted_wrt (>) (map (\<lambda>(p, i). ema_value i) ps) then Bullish
      else if sorted_wrt (<) (map (\<lambda>(p, i). ema_value i) ps) then Bearish
      else Neutral)"
proof -
  have d: "distinct (map fst ps)" and srt: "sorted (map fst ps)"
    using assms by (simp_all add: strict_sorted_iff)
  have periods: "sort (map fst ps) = map fst ps" using srt by (rule sorted_sort_id)
  have above: "list_all (\<lambda>p. position (lookup_position ps p) = Above) (map fst ps)
               \<longleftrightarrow> list_all (\<lambda>(p, i). position i = Above) ps"
    by (rule list_all_lookup_keys[OF d])
  have below: "list_all (\<lambda>p. position (lookup_position ps p) = Below) (map fst ps)
               \<longleftrightarrow> list_all (\<lambda>(p, i). position i = Below) ps"
    by (rule list_all_lookup_keys[OF d])
  have evl: "map (\<lambda>p. (p, ema_value (lookup_position ps p))) (map fst ps)
             = map (\<lambda>(p, i). (p, ema_value i)) ps"
    by (rule map_lookup_keys[OF d])
  have sn: "map snd (map (\<lambda>(p, i). (p, ema_value i)) ps) = map (\<lambda>(p, i). ema_value i) ps"
    by (simp add: case_prod_unfold)
  have bull: "list_all (\<lambda>i. snd (map (\<lambda>(p, i). (p, ema_value i)) ps ! i)
                           > snd (map (\<lambda>(p, i). (p, ema_value i)) ps ! (i + 1)))
                [0..<length (map (\<lambda>(p, i). (p, ema_value i)) ps) - 1]
              \<longleftrightarrow> sorted_wrt (>) (map (\<lambda>(p, i). ema_value i) ps)"
    unfolding adjacent_gt_iff sn ..
  have bear: "list_all (\<lambda>i. snd (map (\<lambda>(p, i). (p, ema_value i)) ps ! i)
                           < snd (map (\<lambda>(p, i). (p, ema_value i)) ps ! (i + 1)))
                [0..<length (map (\<lambda>(p, i). (p, ema_value i)) ps) - 1]
              \<longleftrightarrow> sorted_wrt (<) (map (\<lambda>(p, i). ema_value i) ps)"
    unfolding adjacent_lt_iff sn ..
  show ?thesis
  proof (cases "length ps < 2")
    case True
    then have "(2 \<le> length ps) = False" by auto
    then show ?thesis using True by (simp only: classify_trend_def if_False if_True)
  next
    case False
    then have "(2 \<le> length ps) = True" by auto
    then show ?thesis using False
      by (simp only: classify_trend_def Let_def periods above below evl bull bear
                     if_True if_False)
  qed
qed

lemma position_info_above:
  "list_all (\<lambda>(p, i). position i = Above) (map (\<lambda>(p, v). (p, position_info lc v)) xs)
   \<longleftrightarrow> list_all (\<lambda>(p, v). (lc - v) / v * 100 > 0) xs"
  by (induction xs) (auto simp: position_info_def split: if_splits)

lemma position_info_below:
  "list_all (\<lambda>(p, i). position i = Below) (map (\<lambda>(p, v). (p, position_info lc v)) xs)
   \<longleftrightarrow> list_all (\<lambda>(p, v). \<not> (lc - v) / v * 100 > 0) xs"
  by (induction xs) (auto simp: position_info_def split: if_splits)


lemma diff_percent_positive_iff:
  "0 < v \<Longrightarrow> ((lc - v) / v * 100 > 0 \<longleftrightarrow> v < (lc::real))"
  "v < 0 \<Longrightarrow> ((lc - v) / v * 100 > 0 \<longleftrightarrow> lc < v)"
  by (simp_all add: zero_less_mult_iff zero_less_divide_iff)

lemma analyze_trend_closed_form:
  fixes klines :: "candle list" and ema_values :: "(nat \<times> real) list"
  defines "lc \<equiv> k_close (last klines)"
  defines "included \<equiv> filter (\<lambda>(p, v). v \<noteq> 0) (sort_key fst ema_values)"
  assumes "klines \<noteq> []" and "distinct (map fst ema_values)"
  shows "ema_positions (analyze_trend klines ema_values)
           = map (\<lambda>(p, v). (p, \<lparr>ema_value = v, diff_percent = (lc - v) / v * 100,
                                position = (if (lc - v) / v * 100 > 0 then Above else Below)\<rparr>))
               included
       \<and> trend (analyze_trend klines ema_values)
           = (if length included < 2 then Neutral
              else if list_all (\<lambda>(p, v). (lc - v) / v * 100 > 0) included then StrongBullish
              else if list_all (\<lambda>(p, v). \<not> (lc - v) / v * 100 > 0) included then StrongBearish
              else if sorted_wrt (>) (map snd included) then Bullish
              else if sorted_wrt (<) (map snd included) then Bearish
              else Neutral)
       \<and> price (analyze_trend klines ema_values) = Some lc
       \<and> sorted_wrt (<) (map fst included)
       \<and> set included = {(p, v). (p, v) \<in> set ema_values \<and> v \<noteq> 0}"
proof -
  let ?S = "sort_key fst ema_values"
  let ?ps = "map (\<lambda>(p, v). (p, position_info lc v)) included"
  have dS: "distinct (map fst ?S)" using assms(4) by (simp add: distinct_map_sort_key)
  have fold_eq: "fold (position_step lc) ?S [] = ?ps"
    using fold_position_step[OF dS, of "[]" lc] by (simp add: included_def)
  have unf: "analyze_trend klines ema_values
             = \<lparr>trend = classify_trend ?ps, ema_positions = ?ps, price = Some lc\<rparr>"
    using analyze_trend_unfold[OF assms(3), of ema_values] fold_eq by (simp add: lc_def)
  have keys: "map fst ?ps = map fst included" by (simp add: case_prod_unfold comp_def)
  have "sorted_wrt (<) (map fst ?S)" by (rule strict_sorted_keys[OF assms(4)])
  then have "sorted_wrt (<) (map fst (filter (\<lambda>(p, v). v \<noteq> 0) ?S))"
    by (simp add: sorted_wrt_map sorted_wrt_filter)
  then have sk: "sorted_wrt (<) (map fst included)" by (simp add: included_def)
  then have sps: "sorted_wrt (<) (map fst ?ps)" by (simp only: keys)
  have a1: "list_all (\<lambda>(p, i). position i = Above) ?ps
            \<longleftrightarrow> list_all (\<lambda>(p, v). (lc - v) / v * 100 > 0) included"
    by (rule position_info_above)
  have a2: "list_all (\<lambda>(p, i). position i = Below) ?ps
            \<longleftrightarrow> list_all (\<lambda>(p, v). \<not> (lc - v) / v * 100 > 0) included"
    by (rule position_info_below)
  have a3: "map (\<lambda>(p, i). ema_value i) ?ps = map snd included"
    by (simp add: case_prod_unfold comp_def position_info_def)
  have a4: "length ?ps = length included" by simp
  have tr: "classify_trend ?ps
           = (if length included < 2 then Neutral
              else if list_all (\<lambda>(p, v). (lc - v) / v * 100 > 0) included then StrongBullish
              else if list_all (\<lambda>(p, v). \<not> (lc - v) / v * 100 > 0) included then StrongBearish
              else if sorted_wrt (>) (map snd included) then Bullish
              else if sorted_wrt (<) (map snd included) then Bearish
              else Neutral)"
    by (simp only: classify_trend_sorted[OF sps] a1 a2 a3 a4)
  have ps: "?ps = map (\<lambda>(p, v). (p, \<lparr>ema_value = v, diff_percent = (lc - v) / v * 100,
                                position = (if (lc - v) / v * 100 > 0 then Above else Below)\<rparr>))
               included"
    by (simp add: position_info_def)
  have st: "set included = {(p, v). (p, v) \<in> set ema_values \<and> v \<noteq> 0}"
    by (auto simp: included_def)
  have e1: "ema_positions (analyze_trend klines ema_values) = ?ps" by (simp add: unf)
  have e2: "trend (analyze_trend klines ema_values) = classify_trend ?ps" by (simp add: unf)
  have e3: "price (analyze_trend klines ema_values) = Some lc" by (simp add: unf)
  show ?thesis
    by (intro conjI) (rule trans[OF e1 ps] trans[OF e2 tr] e3 sk st)+
qed

lemma analyze_trend_strong_iff:
  assumes "klines \<noteq> []" and "distinct (map fst ema_values)"
    and pos: "\<forall>(p, v) \<in> set (filter (\<lambda>(p, v). v \<noteq> 0) (sort_key fst ema_values)). 0 < v"
  shows "(trend (analyze_trend klines ema_values) = StrongBullish \<longleftrightarrow>
            2 \<le> length (filter (\<lambda>(p, v). v \<noteq> 0) (sort_key fst ema_values))
            \<and> (\<forall>(p, v) \<in> set (filter (\<lambda>(p, v). v \<noteq> 0) (sort_key fst ema_values)).
                  v < k_close (last klines)))
       \<and> (trend (analyze_trend klines ema_values) = StrongBearish \<longleftrightarrow>
            2 \<le> length (filter (\<lambda>(p, v). v \<noteq> 0) (sort_key fst ema_values))
            \<and> (\<forall>(p, v) \<in> set (filter (\<lambda>(p, v). v \<noteq> 0) (sort_key fst ema_values)).
                  k_close (last klines) \<le> v))"
proof -
  define lc where "lc = k_close (last klines)"
  define included where "included = filter (\<lambda>(p, v). v \<noteq> 0) (sort_key fst ema_values)"
  define A where "A \<longleftrightarrow> list_all (\<lambda>(p, v). (lc - v) / v * 100 > 0) included"
  define B where "B \<longleftrightarrow> list_all (\<lambda>(p, v). \<not> (lc - v) / v * 100 > 0) included"
  define C where "C \<longleftrightarrow> sorted_wrt (>) (map snd included)"
  define D where "D \<longleftrightarrow> sorted_wrt (<) (map snd included)"
  have tr: "trend (analyze_trend klines ema_values)
           = (if length included < 2 then Neutral
              else if A then StrongBullish
              else if B then StrongBearish
              else if C then Bullish
              else if D then Bearish
              else Neutral)"
    using analyze_trend_closed_form[OF assms(1) assms(2)]
    unfolding lc_def included_def A_def B_def C_def D_def by blast
  have pos': "\<And>p v. (p, v) \<in> set included \<Longrightarrow> 0 < v"
    using pos unfolding included_def by blast
  have pw: "((lc - v) / v * 100 > 0) = (v < lc)" if "(p, v) \<in> set included" for p v
    using pos'[OF that] by (rule diff_percent_positive_iff(1))
  have pa: "(case x of (p, v) \<Rightarrow> (lc - v) / v * 100 > 0) = (case x of (p, v) \<Rightarrow> v < lc)"
    if "x \<in> set included" for x
  proof (cases x)
    case (Pair p v)
    then have "(p, v) \<in> set included" using that by simp
    then have "((lc - v) / v * 100 > 0) = (v < lc)" by (rule pw)
    then show ?thesis by (simp only: Pair prod.case)
  qed
  have pb: "(case x of (p, v) \<Rightarrow> \<not> (lc - v) / v * 100 > 0) = (case x of (p, v) \<Rightarrow> lc \<le> v)"
    if "x \<in> set included" for x
  proof (cases x)
    case (Pair p v)
    then have "(p, v) \<in> set included" using that by simp
    then have "((lc - v) / v * 100 > 0) = (v < lc)" by (rule pw)
    then have "(\<not> (lc - v) / v * 100 > 0) = (lc \<le> v)" by (simp only: not_less)
    then show ?thesis by (simp only: Pair prod.case)
  qed
  have Aiff: "A \<longleftrightarrow> (\<forall>(p, v) \<in> set included. v < lc)"
    unfolding A_def list_all_iff using pa by blast
  have Biff: "B \<longleftrightarrow> (\<forall>(p, v) \<in> set included. lc \<le> v)"
    unfolding B_def list_all_iff using pb by blast
  have excl: "\<not> (2 \<le> length included \<and> B \<and> A)"
  proof
    assume h: "2 \<le> length included \<and> B \<and> A"
    then obtain x where x: "x \<in> set included" by (cases included) auto
    obtain p v where pv: "x = (p, v)" by (cases x)
    have "lc \<le> v" using h x pv Biff by auto
    moreover have "v < lc" using h x pv Aiff by auto
    ultimately show False by simp
  qed
  have bull: "trend (analyze_trend klines ema_values) = StrongBullish
              \<longleftrightarrow> 2 \<le> length included \<and> A"
    by (auto simp: tr)
  have bear: "trend (analyze_trend klines ema_values) = StrongBearish
              \<longleftrightarrow> 2 \<le> length included \<and> B"
    using excl by (cases "length included < 2"; cases A; cases B) (auto simp: tr)
  show ?thesis
    using bull bear unfolding Aiff Biff unfolding lc_def included_def by blast
qed

text \<open>
  Claim C8, as amended. For a non-empty candle list and an EMA dictionary (distinct
  periods), let \<open>included\<close> be the entries with a nonzero value, sorted by period; an
  EMA of exactly 0 is excluded. Each included EMA gets the position \<open>Above\<close> when its
  \<open>diff_percent = (latest_close - ema) / ema \<times> 100\<close> is positive and \<open>Below\<close> otherwise.
  With fewer than 2 included EMAs the trend is neutral; otherwise it is strong_bullish
  when all positions are \<open>Above\<close>, else strong_bearish when all are \<open>Below\<close>, else
  bullish when the EMA values are strictly decreasing as the period increases, else
  bearish when they are strictly increasing, else neutral. For positive EMAs the
  direction is: strong_bullish exactly when there are at least 2 included EMAs and the
  latest close is above every one of them, strong_bearish exactly when there are at
  least 2 and the latest close is at or below every one of them (a tie counts as below).
\<close>

theorem analyze_trend_classification:
  fixes klines :: "candle list" and ema_values :: "(nat \<times> real) list"
  defines "lc \<equiv> k_close (last klines)"
  defines "included \<equiv> filter (\<lambda>(p, v). v \<noteq> 0) (sort_key fst ema_values)"
  assumes "klines \<noteq> []" and "distinct (map fst ema_values)"
  shows "ema_positions (analyze_trend klines ema_values)
           = map (\<lambda>(p, v). (p, \<lparr>ema_value = v, diff_percent = (lc - v) / v * 100,
                                position = (if (lc - v) / v * 100 > 0 then Above else Below)\<rparr>))
               included
       \<and> trend (analyze_trend klines ema_values)
           = (if length included < 2 then Neutral
              else if list_all (\<lambda>(p, v). (lc - v) / v * 100 > 0) included then StrongBullish
              else if list_all (\<lambda>(p, v). \<not> (lc - v) / v * 100 > 0) included then StrongBearish
              else if sorted_wrt (>) (map snd included) then Bullish
              else if sorted_wrt (<) (map snd included) then Bearish
              else Neutral)
       \<and> price (analyze_trend klines ema_values) = Some lc
       \<and> sorted_wrt (<) (map fst included)
       \<and> set included = {(p, v). (p, v) \<in> set ema_values \<and> v \<noteq> 0}
       \<and> ((\<forall>(p, v) \<in> set included. 0 < v) \<longrightarrow>
            (trend (analyze_trend klines ema_values) = StrongBullish \<longleftrightarrow>
               2 \<le> length included \<and> (\<forall>(p, v) \<in> set included. v < lc))
            \<and> (trend (analyze_trend klines ema_values) = StrongBearish \<longleftrightarrow>
               2 \<le> length included \<and> (\<forall>(p, v) \<in> set included. lc \<le> v)))"
proof -
  have cf: "ema_positions (analyze_trend klines ema_values)
           = map (\<lambda>(p, v). (p, \<lparr>ema_value = v, diff_percent = (lc - v) / v * 100,
                                position = (if (lc - v) / v * 100 > 0 then Above else Below)\<rparr>))
               included
       \<and> trend (analyze_trend klines ema_values)
           = (if length included < 2 then Neutral
              else if list_all (\<lambda>(p, v). (lc - v) / v * 100 > 0) included then StrongBullish
              else if list_all (\<lambda>(p, v). \<not> (lc - v) / v * 100 > 0) included then StrongBearish
              else if sorted_wrt (>) (map snd included) then Bullish
              else if sorted_wrt (<) (map snd included) then Bearish
              else Neutral)
       \<and> price (analyze_trend klines ema_values) = Some lc
       \<and> sorted_wrt (<) (map fst included)
       \<and> set included = {(p, v). (p, v) \<in> set ema_values \<and> v \<noteq> 0}"
    unfolding lc_def included_def
    by (rule analyze_trend_closed_form[OF assms(3) assms(4)])
  have dir: "(\<forall>(p, v) \<in> set included. 0 < v) \<longrightarrow>
            (trend (analyze_trend klines ema_values) = StrongBullish \<longleftrightarrow>
               2 \<le> length included \<and> (\<forall>(p, v) \<in> set included. v < lc))
            \<and> (trend (analyze_trend klines ema_values) = StrongBearish \<longleftrightarrow>
               2 \<le> length included \<and> (\<forall>(p, v) \<in> set included. lc \<le> v))"
    unfolding lc_def included_def
    by (rule impI) (rule analyze_trend_strong_iff[OF assms(3) assms(4)])
  show ?thesis using cf dir by blast
qed

theorem analyze_trend_classification_witness:
  "[candle_of 99 100 101] \<noteq> []
   \<and> distinct (map fst [(60 :: nat, 90 :: real), (20, 95), (120, 0)])
   \<and> filter (\<lambda>(p, v). v \<noteq> 0) (sort_key fst [(60 :: nat, 90 :: real), (20, 95), (120, 0)])
       = [(20, 95), (60, 90)]
   \<and> (0 :: real) < 95 \<and> (0 :: real) < 90
   \<and> k_close (last [candle_of 99 100 101]) = 100
   \<and> trend (analyze_trend [candle_of 99 100 101] [(60, 90), (20, 95), (120, 0)]) = StrongBullish
   \<and> map fst (ema_positions (analyze_trend [candle_of 99 100 101] [(60, 90), (20, 95), (120, 0)]))
       = [20, 60]"
  using analyze_trend_classification[of "[candle_of 99 100 101]" "[(60, 90), (20, 95), (120, 0)]"]
  by (simp add: candle_of_def)

text \<open>
  Claim C8 as stated, with strong_bullish when all positions are above the latest close
  and strong_bearish when all are below it, fails in both respects: the EMAs 110 and
  120, both above the latest close 100, give a strong bearish trend, and the EMAs 100
  and 100, neither above nor below the latest close 100, give a strong bearish trend
  as well.
\<close>

theorem analyze_trend_direction_counterexample:
  "k_close (last [candle_of 99 100 101]) = 100
   \<and> trend (analyze_trend [candle_of 99 100 101] [(20, 110), (60, 120)]) = StrongBearish
   \<and> trend (analyze_trend [candle_of 99 100 101] [(20, 100), (60, 100)]) = StrongBearish"
  using analyze_trend_closed_form[of "[candle_of 99 100 101]" "[(20, 110), (60, 120)]"]
        analyze_trend_closed_form[of "[candle_of 99 100 101]" "[(20, 100), (60, 100)]"]
  by (simp add: candle_of_def)

section \<open>Properties of the cache\<close>

lemma map_of_set_to_cache:
  "map_of (cache (set_to_cache self now key v))
   = (map_of (cache self))(key \<mapsto> \<lparr>data = v, timestamp = now\<rparr>)"
  by (simp add: set_to_cache_def update_conv')

lemma cache_duration_set_to_cache [simp]:
  "cache_duration (set_to_cache self now key v) = cache_duration self"
  by (simp add: set_to_cache_def)

lemma get_after_set:
  "get_from_cache (set_to_cache self t0 key v) t1 key
   = (if t1 - t0 < cache_duration self then Some v else None)"
  by (simp add: get_from_cache_def is_cache_valid_def map_of_set_to_cache)

lemma get_from_cache_hit_iff:
  "get_from_cache self now key = Some v \<longleftrightarrow>
     (\<exists>e. map_of (cache self) key = Some e \<and> data e = v
          \<and> now - timestamp e < cache_duration self)"
  by (auto simp: get_from_cache_def is_cache_valid_def split: option.splits)

lemma distinct_set_to_cache:
  "distinct (map fst (cache self)) \<Longrightarrow> distinct (map fst (cache (set_to_cache self now key v)))"
  by (simp add: set_to_cache_def distinct_update)

text \<open>
  Claim C4. A cache get is a hit with value \<open>v\<close> exactly when the key is present with
  data \<open>v\<close> and \<open>now - inserted_at < ttl\<close>, strictly; it is a miss exactly when the key
  is absent or its age is at least the ttl (an age equal to the ttl is a miss). A put
  at \<open>t0\<close> followed by a get of the same key at \<open>t1\<close> returns the stored value when
  \<open>t1 - t0 < ttl\<close> and misses otherwise; for the fetcher as constructed (ttl 300) a get
  at the time of the put hits and a get 300 seconds later misses.
\<close>

theorem cache_get_hit_iff:
  "(get_from_cache self now key = Some v \<longleftrightarrow>
      (\<exists>e. map_of (cache self) key = Some e \<and> data e = v
           \<and> now - timestamp e < cache_duration self))
   \<and> (get_from_cache self now key = None \<longleftrightarrow>
      (case map_of (cache self) key of
         None \<Rightarrow> True
       | Some e \<Rightarrow> now - timestamp e \<ge> cache_duration self))
   \<and> get_from_cache (set_to_cache self t0 key v) t1 key
       = (if t1 - t0 < cache_duration self then Some v else None)
   \<and> get_from_cache (set_to_cache new_data_fetcher t0 key v) t0 key = Some v
   \<and> get_from_cache (set_to_cache new_data_fetcher t0 key v) (t0 + 300) key = None"
proof (intro conjI)
  show "get_from_cache self now key = Some v \<longleftrightarrow>
      (\<exists>e. map_of (cache self) key = Some e \<and> data e = v
           \<and> now - timestamp e < cache_duration self)"
    by (rule get_from_cache_hit_iff)
  show "get_from_cache self now key = None \<longleftrightarrow>
      (case map_of (cache self) key of
         None \<Rightarrow> True
       | Some e \<Rightarrow> now - timestamp e \<ge> cache_duration self)"
    by (auto simp: get_from_cache_def is_cache_valid_def split: option.splits)
  show "get_from_cache (set_to_cache self t0 key v) t1 key
       = (if t1 - t0 < cache_duration self then Some v else None)"
    by (rule get_after_set)
  show "get_from_cache (set_to_cache new_data_fetcher t0 key v) t0 key = Some v"
    by (simp add: get_after_set new_data_fetcher_def)
  show "get_from_cache (set_to_cache new_data_fetcher t0 key v) (t0 + 300) key = None"
    by (simp add: get_after_set new_data_fetcher_def)
qed

lemma fold_delete_filter:
  "fold AList.delete ks al = filter (\<lambda>(k, e). k \<notin> set ks) al"
proof (induction ks arbitrary: al)
  case Nil
  then show ?case by simp
next
  case (Cons k ks)
  have "fold AList.delete (k # ks) al = filter (\<lambda>(k', e). k' \<notin> set ks) (AList.delete k al)"
    using Cons.IH by simp
  also have "\<dots> = filter (\<lambda>(k', e). k' \<notin> set (k # ks)) al"
    by (induction al) auto
  finally show ?case .
qed

lemma clear_cache_prefix:
  "clear_cache self (Some p)
   = (self\<lparr>cache := filter (\<lambda>(k, e). \<not> prefix p k) (cache self)\<rparr>,
      length (filter (\<lambda>(k, e). prefix p k) (cache self)))"
proof -
  have a: "filter (\<lambda>(k, e). k \<notin> set (filter (prefix p) (map fst (cache self)))) (cache self)
        = filter (\<lambda>(k, e). \<not> prefix p k) (cache self)"
    by (rule filter_cong) (auto simp: rev_image_eqI)
  have b: "length (filter (prefix p) (map fst (cache self)))
        = length (filter (\<lambda>(k, e). prefix p k) (cache self))"
    by (simp add: filter_map comp_def case_prod_unfold)
  have "clear_cache self (Some p)
        = (self\<lparr>cache := filter (\<lambda>(k, e). k \<notin> set (filter (prefix p) (map fst (cache self))))
                             (cache self)\<rparr>,
           length (filter (prefix p) (map fst (cache self))))"
    by (simp only: clear_cache_def Let_def fold_delete_filter option.case)
  then show ?thesis by (simp only: a b)
qed

lemma map_of_filter_key:
  "map_of (filter (\<lambda>(k, e). P k) al) k = (if P k then map_of al k else None)"
  by (induction al) auto

text \<open>
  Claim C5. \<^const>\<open>clear_cache\<close> with no prefix empties the cache and returns the number
  of entries that were stored. With a prefix it keeps exactly the entries whose key does
  not start with the prefix, in their order and unchanged (every other key looks up as
  before, a key with the prefix is absent), and returns the number of entries whose key
  starts with the prefix, which is the number of entries removed.
\<close>

theorem clear_cache_spec:
  "clear_cache self None = (self\<lparr>cache := []\<rparr>, length (cache self))
   \<and> cache (fst (clear_cache self (Some p))) = filter (\<lambda>(k, e). \<not> prefix p k) (cache self)
   \<and> cache_duration (fst (clear_cache self (Some p))) = cache_duration self
   \<and> (\<forall>k. map_of (cache (fst (clear_cache self (Some p)))) k
          = (if prefix p k then None else map_of (cache self) k))
   \<and> snd (clear_cache self (Some p)) = length (filter (\<lambda>(k, e). prefix p k) (cache self))
   \<and> snd (clear_cache self (Some p))
       = length (cache self) - length (cache (fst (clear_cache self (Some p))))"
proof (intro conjI allI)
  show "clear_cache self None = (self\<lparr>cache := []\<rparr>, length (cache self))"
    by (simp add: clear_cache_def)
  show "cache (fst (clear_cache self (Some p))) = filter (\<lambda>(k, e). \<not> prefix p k) (cache self)"
    by (simp add: clear_cache_prefix)
  show "cache_duration (fst (clear_cache self (Some p))) = cache_duration self"
    by (simp add: clear_cache_prefix)
  show "map_of (cache (fst (clear_cache self (Some p)))) k
          = (if prefix p k then None else map_of (cache self) k)" for k
    using map_of_filter_key[of "\<lambda>k. \<not> prefix p k" "cache self" k]
    by (simp add: clear_cache_prefix)
  show "snd (clear_cache self (Some p)) = length (filter (\<lambda>(k, e). prefix p k) (cache self))"
    by (simp add: clear_cache_prefix)
  have "length (filter (\<lambda>(k, e). prefix p k) (cache self))
        + length (filter (\<lambda>(k, e). \<not> prefix p k) (cache self)) = length (cache self)"
    using sum_length_filter_compl[of "\<lambda>(k, e). prefix p k" "cache self"]
    by (simp add: case_prod_unfold)
  then show "snd (clear_cache self (Some p))
       = length (cache self) - length (cache (fst (clear_cache self (Some p))))"
    by (simp add: clear_cache_prefix)
qed

lemma distinct_clear_cache:
  assumes "distinct (map fst (cache self))"
  shows "distinct (map fst (cache (fst (clear_cache self key_prefix))))"
proof (cases key_prefix)
  case None
  then show ?thesis by (simp add: clear_cache_def)
next
  case (Some p)
  then show ?thesis using assms by (simp add: clear_cache_prefix distinct_map_filter)
qed

lemma fold_count_step:
  "fold (count_step now d) es (v, x)
   = (v + length (filter (\<lambda>e. now - timestamp e < d) es),
      x + length (filter (\<lambda>e. \<not> now - timestamp e < d) es))"
  by (induction es arbitrary: v x) (simp_all add: count_step_def)

lemma valid_keys_card:
  assumes "distinct (map fst al)"
  shows "card {k. \<exists>e. map_of al k = Some e \<and> P e} = length (filter (\<lambda>e. P e) (map snd al))"
proof -
  let ?xs = "filter (\<lambda>(k, e). P e) al"
  have d: "distinct (map fst ?xs)" using assms by (rule distinct_map_filter)
  have "{k. \<exists>e. map_of al k = Some e \<and> P e} = set (map fst ?xs)"
    using assms by (force simp: image_iff)
  then have "card {k. \<exists>e. map_of al k = Some e \<and> P e} = length (map fst ?xs)"
    using distinct_card[OF d] by simp
  also have "\<dots> = length (filter (\<lambda>e. P e) (map snd al))"
    by (simp add: filter_map comp_def case_prod_unfold)
  finally show ?thesis .
qed

text \<open>
  Claim C10. For every cache (a dictionary: distinct keys) and every current time,
  \<open>total_entries = valid_entries + expired_entries\<close>; the total is the number of stored
  entries, the valid entries are exactly the keys that \<^const>\<open>is_cache_valid\<close> accepts,
  which are the keys on which \<^const>\<open>get_from_cache\<close> hits, and the expired entries are
  the stored keys it rejects.
\<close>

theorem cache_stats_partition:
  assumes "distinct (map fst (cache self))"
  shows "total_entries (get_cache_stats str_len self now)
           = valid_entries (get_cache_stats str_len self now)
             + expired_entries (get_cache_stats str_len self now)
       \<and> total_entries (get_cache_stats str_len self now) = length (cache self)
       \<and> valid_entries (get_cache_stats str_len self now)
           = card {k. is_cache_valid self now k}
       \<and> valid_entries (get_cache_stats str_len self now)
           = card {k. \<exists>v. get_from_cache self now k = Some v}
       \<and> expired_entries (get_cache_stats str_len self now)
           = card {k. k \<in> fst ` set (cache self) \<and> \<not> is_cache_valid self now k}"
proof -
  let ?P = "\<lambda>e. now - timestamp e < cache_duration self"
  let ?es = "map snd (cache self)"
  have v: "valid_entries (get_cache_stats str_len self now) = length (filter ?P ?es)"
    by (simp add: get_cache_stats_def Let_def fold_count_step)
  have x: "expired_entries (get_cache_stats str_len self now)
           = length (filter (\<lambda>e. \<not> ?P e) ?es)"
    by (simp add: get_cache_stats_def Let_def fold_count_step)
  have t: "total_entries (get_cache_stats str_len self now) = length (cache self)"
    by (simp add: get_cache_stats_def Let_def)
  have "length (filter ?P ?es) + length (filter (\<lambda>e. \<not> ?P e) ?es) = length ?es"
    by (rule sum_length_filter_compl)
  then have sum: "total_entries (get_cache_stats str_len self now)
           = valid_entries (get_cache_stats str_len self now)
             + expired_entries (get_cache_stats str_len self now)"
    using v x t by simp
  have s1: "{k. is_cache_valid self now k} = {k. \<exists>e. map_of (cache self) k = Some e \<and> ?P e}"
    by (auto simp: is_cache_valid_def split: option.splits)
  have s2: "{k. \<exists>v. get_from_cache self now k = Some v}
            = {k. \<exists>e. map_of (cache self) k = Some e \<and> ?P e}"
    by (auto simp: get_from_cache_hit_iff)
  have dom: "\<And>k. k \<in> fst ` set (cache self) \<longleftrightarrow> map_of (cache self) k \<noteq> None"
    by (simp add: map_of_eq_None_iff)
  have s3: "{k. k \<in> fst ` set (cache self) \<and> \<not> is_cache_valid self now k}
            = {k. \<exists>e. map_of (cache self) k = Some e \<and> \<not> ?P e}"
    unfolding dom by (auto simp: is_cache_valid_def split: option.splits)
  show ?thesis
    using sum t v x valid_keys_card[OF assms, of ?P] valid_keys_card[OF assms, of "\<lambda>e. \<not> ?P e"]
    by (simp only: s1 s2 s3)
qed

theorem cache_stats_partition_witness:
  "distinct (map fst (cache (set_to_cache (set_to_cache new_data_fetcher 0 ''a'' (10::nat)) 200 ''b'' 20)))
   \<and> total_entries (get_cache_stats (\<lambda>e. 0)
        (set_to_cache (set_to_cache new_data_fetcher 0 ''a'' (10::nat)) 200 ''b'' 20) 300) = 2
   \<and> valid_entries (get_cache_stats (\<lambda>e. 0)
        (set_to_cache (set_to_cache new_data_fetcher 0 ''a'' (10::nat)) 200 ''b'' 20) 300) = 1
   \<and> expired_entries (get_cache_stats (\<lambda>e. 0)
        (set_to_cache (set_to_cache new_data_fetcher 0 ''a'' (10::nat)) 200 ''b'' 20) 300) = 1
   \<and> card {k. is_cache_valid
        (set_to_cache (set_to_cache new_data_fetcher 0 ''a'' (10::nat)) 200 ''b'' 20) 300 k} = 1"
proof -
  let ?S = "set_to_cache (set_to_cache new_data_fetcher 0 ''a'' (10::nat)) 200 ''b'' 20"
  have c: "cache ?S = [(''a'', \<lparr>data = 10, timestamp = 0\<rparr>), (''b'', \<lparr>data = 20, timestamp = 200\<rparr>)]"
    by (simp add: set_to_cache_def new_data_fetcher_def)
  have cd: "cache_duration (new_data_fetcher :: nat data_fetcher) = 300"
    by (simp add: new_data_fetcher_def)
  have d: "distinct (map fst (cache ?S))" by (simp add: c)
  have v: "valid_entries (get_cache_stats (\<lambda>e. 0) ?S 300) = 1"
    by (simp add: get_cache_stats_def Let_def c cd count_step_def)
  have x: "expired_entries (get_cache_stats (\<lambda>e. 0) ?S 300) = 1"
    by (simp add: get_cache_stats_def Let_def c cd count_step_def)
  show ?thesis
    using cache_stats_partition[OF d, of "\<lambda>e. 0" 300] d v x by simp
qed
section \<open>Properties of the processor\<close>

text \<open>
  Claim C9. For every symbol whose candle list is empty or has fewer than 10 candles,
  \<^const>\<open>process_symbol\<close> returns exactly the placeholder with the symbol, the error
  \<open>Insufficient data\<close>, the signal none and the confidence 0, whatever the configuration,
  the clock and the candles are: no indicator or signal enters the result.
\<close>

theorem process_symbol_insufficient:
  assumes "klines = [] \<or> length klines < 10"
  shows "process_symbol cfg str_of now symbol klines
         = Failure \<lparr>e_symbol = symbol, e_error = ''Insufficient data'',
                    e_signal = NoSignal, e_confidence = 0\<rparr>"
  using assms by (simp only: process_symbol_def if_True)

theorem process_symbol_insufficient_witness:
  "length (replicate 9 (candle_of 0 0 0)) < 10
   \<and> process_symbol default_config (\<lambda>e. ''float division by zero'') 1700000000 ''BTCUSDT''
        (replicate 9 (candle_of 0 0 0))
      = Failure \<lparr>e_symbol = ''BTCUSDT'', e_error = ''Insufficient data'',
                 e_signal = NoSignal, e_confidence = 0\<rparr>
   \<and> process_symbol default_config (\<lambda>e. ''float division by zero'') 1700000000 ''BTCUSDT'' []
      = Failure \<lparr>e_symbol = ''BTCUSDT'', e_error = ''Insufficient data'',
                 e_signal = NoSignal, e_confidence = 0\<rparr>"
  using process_symbol_insufficient[of "replicate 9 (candle_of 0 0 0)" default_config
          "\<lambda>e. ''float division by zero''" 1700000000 "''BTCUSDT''"]
        process_symbol_insufficient[of "[]" default_config
          "\<lambda>e. ''float division by zero''" 1700000000 "''BTCUSDT''"]
  by simp

lemma process_symbol_sufficient:
  assumes "10 \<le> length klines"
  shows "process_symbol cfg str_of now symbol klines
         = (case process_symbol_body cfg now symbol klines of
              Inl e \<Rightarrow> Failure \<lparr>e_symbol = symbol, e_error = str_of e,
                                e_signal = NoSignal, e_confidence = 0\<rparr>
            | Inr result \<Rightarrow> Success result)"
proof -
  have "(klines = [] \<or> length klines < 10) = False" using assms by auto
  then show ?thesis by (simp only: process_symbol_def if_False)
qed

text \<open>With ten candles the guard is passed and the \<^verbatim>\<open>try\<close> block runs: ten candles with
  a zero close make \<^const>\<open>detect_signal\<close> divide by zero, and the placeholder carries the
  exception's text instead.\<close>

lemma process_symbol_ten_candles_error:
  "process_symbol default_config (\<lambda>e. ''float division by zero'') 1700000000 ''BTCUSDT''
        (replicate 10 (candle_of 0 0 0))
   = Failure \<lparr>e_symbol = ''BTCUSDT'', e_error = ''float division by zero'',
              e_signal = NoSignal, e_confidence = 0\<rparr>"
  by (simp add: process_symbol_def process_symbol_body_def default_config_def
        calculate_latest_emas_def calculate_multiple_emas_def calculate_ema_def
        detect_signal_unfold py_tail_def Let_def)


end
